theory Spec2Isabelle
  imports Main "HOL-Library.Word"
begin

section \<open>Values of the JavaScript runtime\<close>

text \<open>
  A JavaScript string is a sequence of 16-bit code units. The text of a file read with
  \<^verbatim>\<open>fs.readFile(path, 'utf-8')\<close> is such a string as well, so file contents are kept
  in decoded form. \<open>str\<close> embeds an ASCII literal.
\<close>

type_synonym jsstring = "16 word list"

definition str :: "string \<Rightarrow> jsstring" where
  "str s = map (\<lambda>c. word_of_int (of_char c)) s"

text \<open>
  A number is kept as the exact decimal \<open>m * 10 ^ e\<close> that its JSON text denotes; the
  program only copies numbers and compares one with zero. The rounding of a literal to
  the nearest IEEE double is not part of the model.
\<close>

datatype jsnum = Decimal int int

fun isZero :: "jsnum \<Rightarrow> bool" where
  "isZero (Decimal m e) = (m = 0)"

text \<open>
  A \<^verbatim>\<open>Date\<close> object is identified by what its \<^verbatim>\<open>toJSON()\<close> yields: the ISO-8601
  text of its instant, or nothing for an invalid date.
\<close>

datatype jsdate = Date "jsstring option"

section \<open>Data model (types.ts)\<close>

record FlightQuery =
  dates :: "jsstring list"
  origins :: "jsstring list"
  destinations :: "jsstring list"

record Trip =
  depart :: "FlightQuery option"
  return :: "FlightQuery option"

datatype legType = Depart | Return

record CityInfo =
  entityId :: jsstring
  flightPlaceType :: jsstring
  localizedName :: jsstring
  skyId :: jsstring

text \<open>
  \<^verbatim>\<open>DeepPartial<SkyScannerSuggestions>\<close>: every level that the code reads through
  \<^verbatim>\<open>?.\<close> may be absent.
\<close>

record nav =
  relevantFlightParams :: "CityInfo option"

record suggest =
  navigation :: "nav option"

record SkyScannerSuggestions =
  inputSuggest :: "suggest list option"

record named =
  name :: jsstring

record carrierList =
  marketing :: "named list"

record leg =
  carriers :: carrierList
  arrival :: jsstring
  departure :: jsstring
  origin :: named
  destination :: named
  stopCount :: jsnum

record rawPrice =
  raw :: jsnum

record item =
  legs :: "leg list"
  price :: rawPrice

text \<open>
  The code reads \<^verbatim>\<open>bucket.items!\<close>: the list may be absent at run time, and the
  non-null assertion does not check it.
\<close>

record bucket =
  items :: "item list option"

record itinerarySet =
  buckets :: "bucket list option"

record flightData =
  itineraries :: "itinerarySet option"

record SkyScannerFlights =
  data :: "flightData option"

record FlightResult =
  date :: jsstring
  origin :: jsstring
  destination :: jsstring
  departsAt :: jsdate
  arrivesAt :: jsdate
  url :: jsstring
  price :: jsnum
  carrier :: "jsstring option"

record flightOpt =
  date :: jsstring
  origin :: jsstring
  destination :: jsstring

section \<open>Process state, environment and errors\<close>

record searchParams =
  date :: jsstring
  origin :: jsstring
  originId :: jsstring
  destination :: jsstring
  destinationId :: jsstring
  cabinClass :: jsstring
  adults :: nat
  currency :: jsstring

datatype request = AutoComplete jsstring | OneWayList searchParams

datatype error =
    MissingCredentialError
  | UnresolvedCityError jsstring SkyScannerSuggestions
  | ProviderRequestError
  | TypeError

text \<open>
  The environment of a run: the API key of \<^verbatim>\<open>process.env\<close>, the provider's two
  endpoints and the runtime's \<^verbatim>\<open>new Date(string)\<close>. An endpoint answers a request
  given the requests issued before it (newest first), so the provider may answer the same
  request differently at different times; \<open>None\<close> is a request that fails.
\<close>

record env =
  RAPID_API_KEY :: "jsstring option"
  autoComplete :: "request list \<Rightarrow> jsstring \<Rightarrow> SkyScannerSuggestions option"
  oneWayList :: "request list \<Rightarrow> searchParams \<Rightarrow> SkyScannerFlights option"
  newDate :: "jsstring \<Rightarrow> jsdate"

text \<open>
  The mutable state: \<^verbatim>\<open>cache.cityInfo\<close>, the files of the working directory, and
  the requests sent to the provider so far (newest first). The city mapping is an object
  used as a dictionary, modelled as a map: names that are members of
  \<^verbatim>\<open>Object.prototype\<close> are outside the model. A file can be read when it is there, and
  a write succeeds.
\<close>

record state =
  cityInfo :: "jsstring \<rightharpoonup> CityInfo"
  files :: "jsstring \<rightharpoonup> jsstring"
  calls :: "request list"

type_synonym 'a io = "state \<Rightarrow> (error + 'a) \<times> state"

definition succeed :: "'a \<Rightarrow> 'a io" where
  "succeed x s = (Inr x, s)"

definition andThen :: "'a io \<Rightarrow> ('a \<Rightarrow> 'b io) \<Rightarrow> 'b io" where
  "andThen m f s = (case m s of (Inl e, s') \<Rightarrow> (Inl e, s') | (Inr x, s') \<Rightarrow> f x s')"

section \<open>The provider client and the city resolver\<close>

definition fetchSkyscanner :: "env \<Rightarrow> request \<Rightarrow> (request list \<Rightarrow> 'a option) \<Rightarrow> 'a io" where
  "fetchSkyscanner env req respond s =
     (case RAPID_API_KEY env of
        None \<Rightarrow> (Inl MissingCredentialError, s)
      | Some key \<Rightarrow>
          if key = [] then (Inl MissingCredentialError, s)
          else (case respond (calls s) of
                  None \<Rightarrow> (Inl ProviderRequestError, s\<lparr>calls := req # calls s\<rparr>)
                | Some res \<Rightarrow> (Inr res, s\<lparr>calls := req # calls s\<rparr>)))"

text \<open>The key is present when it is defined and not the empty string.\<close>

definition hasKey :: "env \<Rightarrow> bool" where
  "hasKey env = (case RAPID_API_KEY env of None \<Rightarrow> False | Some key \<Rightarrow> key \<noteq> [])"

definition firstSuggestion :: "SkyScannerSuggestions \<Rightarrow> CityInfo option" where
  "firstSuggestion result =
     (case inputSuggest result of
        None \<Rightarrow> None
      | Some [] \<Rightarrow> None
      | Some (x # _) \<Rightarrow>
          (case navigation x of None \<Rightarrow> None | Some n \<Rightarrow> relevantFlightParams n))"

definition getCityInfo :: "env \<Rightarrow> jsstring \<Rightarrow> CityInfo io" where
  "getCityInfo env nm s =
     (case cityInfo s nm of
        Some info \<Rightarrow> (Inr info, s)
      | None \<Rightarrow>
          andThen (fetchSkyscanner env (AutoComplete nm) (\<lambda>h. autoComplete env h nm))
            (\<lambda>result s'.
               case firstSuggestion result of
                 None \<Rightarrow> (Inl (UnresolvedCityError nm result), s')
               | Some info \<Rightarrow> (Inr info, s'\<lparr>cityInfo := (cityInfo s')(nm \<mapsto> info)\<rparr>)) s)"

section \<open>The flight search\<close>

definition flightUrl :: "jsstring \<Rightarrow> jsstring \<Rightarrow> jsstring \<Rightarrow> jsstring" where
  "flightUrl originSky destinationSky day =
     str ''https://www.skyscanner.hu/transport/flights/'' @ originSky @ str ''/''
       @ destinationSky @ str ''/'' @ filter (\<lambda>c. c \<noteq> 0x2D) day
       @ str ''/?adultsv2=1&cabinclass=economy&childrenv2=&ref=home&rtn=0&preferdirects=true&outboundaltsenabled=false&inboundaltsenabled=false''"

definition firstBucket :: "SkyScannerFlights \<Rightarrow> bucket option" where
  "firstBucket result =
     (case data result of
        None \<Rightarrow> None
      | Some d \<Rightarrow>
          (case itineraries d of
             None \<Rightarrow> None
           | Some i \<Rightarrow>
               (case buckets i of
                  None \<Rightarrow> None
                | Some [] \<Rightarrow> None
                | Some (b # _) \<Rightarrow> Some b)))"

text \<open>The filter \<^verbatim>\<open>item.legs[0]?.stopCount === 0\<close>.\<close>

definition nonStop :: "item \<Rightarrow> bool" where
  "nonStop item = (case legs item of [] \<Rightarrow> False | l # _ \<Rightarrow> isZero (stopCount l))"

text \<open>
  The body of the \<^verbatim>\<open>forEach\<close> callback. \<^verbatim>\<open>flight.legs[0]\<close> of an empty list is
  \<^verbatim>\<open>undefined\<close>, and reading \<^verbatim>\<open>data.origin\<close> from it raises a TypeError.
\<close>

definition flightResult ::
  "env \<Rightarrow> flightOpt \<Rightarrow> CityInfo \<Rightarrow> CityInfo \<Rightarrow> item \<Rightarrow> error + FlightResult" where
  "flightResult env opt originInfo destinationInfo flight =
     (case legs flight of
        [] \<Rightarrow> Inl TypeError
      | d # _ \<Rightarrow>
          Inr \<lparr> FlightResult.date = flightOpt.date opt,
                FlightResult.origin = name (leg.origin d),
                FlightResult.destination = name (leg.destination d),
                departsAt = newDate env (departure d),
                arrivesAt = newDate env (arrival d),
                url = flightUrl (skyId originInfo) (skyId destinationInfo) (flightOpt.date opt),
                FlightResult.price = raw (item.price flight),
                carrier = (case marketing (carriers d) of [] \<Rightarrow> None | c # _ \<Rightarrow> Some (name c)) \<rparr>)"

fun forEach :: "('a \<Rightarrow> error + 'b) \<Rightarrow> 'a list \<Rightarrow> 'b list \<Rightarrow> error + 'b list" where
  "forEach f [] results = Inr results"
| "forEach f (x # xs) results =
     (case f x of Inl e \<Rightarrow> Inl e | Inr r \<Rightarrow> forEach f xs (results @ [r]))"

definition searchRequest :: "flightOpt \<Rightarrow> CityInfo \<Rightarrow> CityInfo \<Rightarrow> searchParams" where
  "searchRequest opt originInfo destinationInfo =
     \<lparr> searchParams.date = flightOpt.date opt,
       searchParams.origin = skyId originInfo,
       originId = entityId originInfo,
       searchParams.destination = skyId destinationInfo,
       destinationId = entityId destinationInfo,
       cabinClass = str ''economy'',
       adults = 1,
       currency = str ''EUR'' \<rparr>"

definition readFlights ::
  "env \<Rightarrow> flightOpt \<Rightarrow> CityInfo \<Rightarrow> CityInfo \<Rightarrow> SkyScannerFlights \<Rightarrow> error + FlightResult list" where
  "readFlights env opt originInfo destinationInfo result =
     (case firstBucket result of
        None \<Rightarrow> Inr []
      | Some bucket \<Rightarrow>
          (case items bucket of
             None \<Rightarrow> Inl TypeError
           | Some its \<Rightarrow>
               forEach (flightResult env opt originInfo destinationInfo) (filter nonStop its) []))"

definition getFlights :: "env \<Rightarrow> flightOpt \<Rightarrow> FlightResult list io" where
  "getFlights env opt =
     andThen (getCityInfo env (flightOpt.origin opt)) (\<lambda>originInfo.
     andThen (getCityInfo env (flightOpt.destination opt)) (\<lambda>destinationInfo.
     andThen (fetchSkyscanner env (OneWayList (searchRequest opt originInfo destinationInfo))
                (\<lambda>h. oneWayList env h (searchRequest opt originInfo destinationInfo)))
       (\<lambda>result s. (readFlights env opt originInfo destinationInfo result, s))))"

text \<open>The three nested \<^verbatim>\<open>for ... of\<close> loops of \<^verbatim>\<open>getFlightResults\<close>, innermost first.\<close>

fun forDates ::
  "env \<Rightarrow> jsstring \<Rightarrow> jsstring \<Rightarrow> jsstring list \<Rightarrow> FlightResult list \<Rightarrow> FlightResult list io" where
  "forDates env orig dest [] results s = (Inr results, s)"
| "forDates env orig dest (d # ds) results s =
     (case getFlights env \<lparr> flightOpt.date = d, flightOpt.origin = orig,
                               flightOpt.destination = dest \<rparr> s of
        (Inl e, s') \<Rightarrow> (Inl e, s')
      | (Inr found, s') \<Rightarrow> forDates env orig dest ds (results @ found) s')"

fun forDestinations ::
  "env \<Rightarrow> FlightQuery \<Rightarrow> jsstring \<Rightarrow> jsstring list \<Rightarrow> FlightResult list \<Rightarrow> FlightResult list io" where
  "forDestinations env q orig [] results s = (Inr results, s)"
| "forDestinations env q orig (dest # dests) results s =
     (case forDates env orig dest (dates q) results s of
        (Inl e, s') \<Rightarrow> (Inl e, s')
      | (Inr results', s') \<Rightarrow> forDestinations env q orig dests results' s')"

fun forOrigins ::
  "env \<Rightarrow> FlightQuery \<Rightarrow> jsstring list \<Rightarrow> FlightResult list \<Rightarrow> FlightResult list io" where
  "forOrigins env q [] results s = (Inr results, s)"
| "forOrigins env q (orig # origs) results s =
     (case forDestinations env q orig (destinations q) results s of
        (Inl e, s') \<Rightarrow> (Inl e, s')
      | (Inr results', s') \<Rightarrow> forOrigins env q origs results' s')"

definition tripLeg :: "Trip \<Rightarrow> legType \<Rightarrow> FlightQuery option" where
  "tripLeg t ty = (case ty of Depart \<Rightarrow> depart t | Return \<Rightarrow> return t)"

definition getFlightResults :: "env \<Rightarrow> Trip \<Rightarrow> legType \<Rightarrow> FlightResult list io" where
  "getFlightResults env t ty s =
     (case tripLeg t ty of
        None \<Rightarrow> (Inr [], s)
      | Some q \<Rightarrow> forOrigins env q (origins q) [] s)"

definition trip :: Trip where
  "trip = \<lparr> depart = Some \<lparr> dates = [str ''2025-09-11'', str ''2025-09-12''],
                            origins = [str ''Budapest'', str ''Berlin'', str ''London''],
                            destinations = [str ''Corfu''] \<rparr>,
            return = Some \<lparr> dates = [str ''2025-09-16'', str ''2025-09-17''],
                            origins = [str ''Corfu''],
                            destinations = [str ''Budapest'', str ''Berlin'', str ''London''] \<rparr> \<rparr>"

section \<open>JSON of the runtime\<close>

text \<open>
  The values that \<^verbatim>\<open>JSON.stringify\<close> and \<^verbatim>\<open>JSON.parse\<close> work on. An object is the
  list of its own properties in enumeration order.
\<close>

datatype jsval =
    JUndefined
  | JNull
  | JBool bool
  | JNum jsnum
  | JStr jsstring
  | JDate jsdate
  | JArr "jsval list"
  | JObj "(jsstring \<times> jsval) list"

subsection \<open>\<^verbatim>\<open>JSON.stringify(value, null, 2)\<close>\<close>

definition hexDigit :: "int \<Rightarrow> 16 word" where
  "hexDigit d = (if d < 10 then word_of_int (48 + d) else word_of_int (87 + d))"

definition unicodeEscape :: "16 word \<Rightarrow> jsstring" where
  "unicodeEscape c =
     [0x5C, 0x75, hexDigit (uint c div 4096), hexDigit (uint c div 256 mod 16),
      hexDigit (uint c div 16 mod 16), hexDigit (uint c mod 16)]"

definition isLeadSurrogate :: "16 word \<Rightarrow> bool" where
  "isLeadSurrogate c = (0xD800 \<le> c \<and> c \<le> 0xDBFF)"

definition isTrailSurrogate :: "16 word \<Rightarrow> bool" where
  "isTrailSurrogate c = (0xDC00 \<le> c \<and> c \<le> 0xDFFF)"

definition quoteUnit :: "16 word \<Rightarrow> jsstring" where
  "quoteUnit c =
     (if c = 0x08 then [0x5C, 0x62]
      else if c = 0x09 then [0x5C, 0x74]
      else if c = 0x0A then [0x5C, 0x6E]
      else if c = 0x0C then [0x5C, 0x66]
      else if c = 0x0D then [0x5C, 0x72]
      else if c = 0x22 then [0x5C, 0x22]
      else if c = 0x5C then [0x5C, 0x5C]
      else if c < 0x20 \<or> isLeadSurrogate c \<or> isTrailSurrogate c then unicodeEscape c
      else [c])"

fun quoteUnits :: "jsstring \<Rightarrow> jsstring" where
  "quoteUnits [] = []"
| "quoteUnits [c] = quoteUnit c"
| "quoteUnits (c # d # cs) =
     (if isLeadSurrogate c \<and> isTrailSurrogate d then c # d # quoteUnits cs
      else quoteUnit c @ quoteUnits (d # cs))"

definition quoteJSONString :: "jsstring \<Rightarrow> jsstring" where
  "quoteJSONString t = [0x22] @ quoteUnits t @ [0x22]"

text \<open>The decimal digits of a number that is not negative, most significant first.\<close>

function digitsOf :: "int \<Rightarrow> int list" where
  "digitsOf n = (if n < 10 then [n] else digitsOf (n div 10) @ [n mod 10])"
  by pat_completeness auto
termination
  by (relation "measure nat") auto

declare digitsOf.simps [simp del]

definition digitChars :: "int list \<Rightarrow> jsstring" where
  "digitChars ds = map (\<lambda>d. word_of_int (48 + d)) ds"

definition stripZeros :: "int list \<Rightarrow> int list" where
  "stripZeros ds = rev (dropWhile (\<lambda>d. d = 0) (rev ds))"

text \<open>
  \<^verbatim>\<open>Number::toString\<close>: with \<open>k\<close> significant digits and the decimal point after
  digit \<open>n\<close>, the four layouts of ECMA-262.
\<close>

definition numberToString :: "jsnum \<Rightarrow> jsstring" where
  "numberToString x =
     (case x of Decimal m e \<Rightarrow>
        if m = 0 then str ''0''
        else
          let ds = stripZeros (digitsOf \<bar>m\<bar>);
              k = int (length ds);
              n = int (length (digitsOf \<bar>m\<bar>)) + e;
              sign = (if m < 0 then str ''-'' else [])
          in sign @
             (if k \<le> n \<and> n \<le> 21 then digitChars ds @ replicate (nat (n - k)) 0x30
              else if 0 < n \<and> n \<le> 21 then
                digitChars (take (nat n) ds) @ str ''.'' @ digitChars (drop (nat n) ds)
              else if -6 < n \<and> n \<le> 0 then
                str ''0.'' @ replicate (nat (- n)) 0x30 @ digitChars ds
              else
                digitChars (take 1 ds)
                  @ (if k = 1 then [] else str ''.'' @ digitChars (drop 1 ds))
                  @ str ''e'' @ (if 0 \<le> n - 1 then str ''+'' else str ''-'')
                  @ digitChars (digitsOf \<bar>n - 1\<bar>)))"

definition indentOf :: "nat \<Rightarrow> jsstring" where
  "indentOf n = replicate (2 * n) 0x20"

fun joinWith :: "jsstring \<Rightarrow> jsstring list \<Rightarrow> jsstring" where
  "joinWith sep [] = []"
| "joinWith sep [x] = x"
| "joinWith sep (x # y # ys) = x @ sep @ joinWith sep (y # ys)"

definition wrapBlock :: "16 word \<Rightarrow> 16 word \<Rightarrow> nat \<Rightarrow> jsstring list \<Rightarrow> jsstring" where
  "wrapBlock opening closing n parts =
     (if parts = [] then [opening, closing]
      else [opening, 0x0A] @ indentOf (Suc n)
             @ joinWith ([0x2C, 0x0A] @ indentOf (Suc n)) parts
             @ [0x0A] @ indentOf n @ [closing])"

text \<open>
  \<^verbatim>\<open>SerializeJSONProperty\<close> at nesting depth \<open>n\<close>: \<open>None\<close> is the result
  \<^verbatim>\<open>undefined\<close>. A Date answers through \<^verbatim>\<open>toJSON\<close>; an element of an array that
  serializes to \<^verbatim>\<open>undefined\<close> is written as \<^verbatim>\<open>null\<close>, a property of an object that
  does so is left out.
\<close>

fun serializeJSON :: "nat \<Rightarrow> jsval \<Rightarrow> jsstring option"
  and serializeElements :: "nat \<Rightarrow> jsval list \<Rightarrow> jsstring list"
  and serializeMembers :: "nat \<Rightarrow> (jsstring \<times> jsval) list \<Rightarrow> jsstring list" where
  "serializeJSON n JUndefined = None"
| "serializeJSON n JNull = Some (str ''null'')"
| "serializeJSON n (JBool b) = Some (if b then str ''true'' else str ''false'')"
| "serializeJSON n (JNum x) = Some (numberToString x)"
| "serializeJSON n (JStr t) = Some (quoteJSONString t)"
| "serializeJSON n (JDate (Date None)) = Some (str ''null'')"
| "serializeJSON n (JDate (Date (Some t))) = Some (quoteJSONString t)"
| "serializeJSON n (JArr xs) = Some (wrapBlock 0x5B 0x5D n (serializeElements (Suc n) xs))"
| "serializeJSON n (JObj ms) = Some (wrapBlock 0x7B 0x7D n (serializeMembers (Suc n) ms))"
| "serializeElements n [] = []"
| "serializeElements n (x # xs) =
     (case serializeJSON n x of None \<Rightarrow> str ''null'' | Some t \<Rightarrow> t) # serializeElements n xs"
| "serializeMembers n [] = []"
| "serializeMembers n ((k, v) # ms) =
     (case serializeJSON n v of
        None \<Rightarrow> serializeMembers n ms
      | Some t \<Rightarrow> (quoteJSONString k @ str '': '' @ t) # serializeMembers n ms)"

definition JSON_stringify :: "jsval \<Rightarrow> jsstring option" where
  "JSON_stringify v = serializeJSON 0 v"

subsection \<open>\<^verbatim>\<open>JSON.parse(text)\<close>\<close>

datatype token =
    TLBrace | TRBrace | TLBracket | TRBracket | TColon | TComma
  | TString jsstring | TNumber jsnum | TTrue | TFalse | TNull

definition isDigit :: "16 word \<Rightarrow> bool" where
  "isDigit c = (0x30 \<le> c \<and> c \<le> 0x39)"

definition digitVal :: "16 word \<Rightarrow> int" where
  "digitVal c = uint c - 48"

definition intOfDigits :: "jsstring \<Rightarrow> int" where
  "intOfDigits cs = foldl (\<lambda>a c. 10 * a + digitVal c) 0 cs"

text \<open>
  The value of a JSON number: integer part \<open>ip\<close>, fraction \<open>fp\<close> and exponent, as
  a decimal without trailing zeros in its mantissa.
\<close>

definition decimalOf :: "bool \<Rightarrow> jsstring \<Rightarrow> jsstring \<Rightarrow> int \<Rightarrow> jsnum" where
  "decimalOf neg ip fp ex =
     (let ds = rev (dropWhile (\<lambda>c. c = 0x30) (rev (ip @ fp)));
          m = intOfDigits ds
      in if m = 0 then Decimal 0 0
         else Decimal (if neg then - m else m)
                (ex - int (length fp) + int (length (ip @ fp)) - int (length ds)))"

definition exponentOf :: "jsstring \<Rightarrow> int option" where
  "exponentOf cs =
     (case cs of
        [] \<Rightarrow> Some 0
      | c # r \<Rightarrow>
          if c = 0x65 \<or> c = 0x45 then
            (let neg = (r \<noteq> [] \<and> hd r = 0x2D);
                 ds = (if r \<noteq> [] \<and> (hd r = 0x2D \<or> hd r = 0x2B) then tl r else r)
             in if ds \<noteq> [] \<and> list_all isDigit ds
                then Some (if neg then - intOfDigits ds else intOfDigits ds)
                else None)
          else None)"

definition numberOf :: "jsstring \<Rightarrow> jsnum option" where
  "numberOf cs =
     (let neg = (cs \<noteq> [] \<and> hd cs = 0x2D);
          body = (if neg then tl cs else cs);
          ip = takeWhile isDigit body;
          r = dropWhile isDigit body;
          fp = (if r \<noteq> [] \<and> hd r = 0x2E then takeWhile isDigit (tl r) else []);
          r' = (if r \<noteq> [] \<and> hd r = 0x2E then dropWhile isDigit (tl r) else r)
      in if ip = [] \<or> (length ip > 1 \<and> hd ip = 0x30) then None
         else if r \<noteq> [] \<and> hd r = 0x2E \<and> fp = [] then None
         else (case exponentOf r' of
                 None \<Rightarrow> None
               | Some ex \<Rightarrow> Some (decimalOf neg ip fp ex)))"

definition wordOf :: "jsstring \<Rightarrow> token option" where
  "wordOf cs =
     (if cs = str ''true'' then Some TTrue
      else if cs = str ''false'' then Some TFalse
      else if cs = str ''null'' then Some TNull
      else None)"

definition hexVal :: "16 word \<Rightarrow> int option" where
  "hexVal c =
     (if isDigit c then Some (uint c - 48)
      else if 0x61 \<le> c \<and> c \<le> 0x66 then Some (uint c - 87)
      else if 0x41 \<le> c \<and> c \<le> 0x46 then Some (uint c - 55)
      else None)"

definition escapeOf :: "16 word \<Rightarrow> 16 word option" where
  "escapeOf c =
     (if c = 0x22 then Some 0x22
      else if c = 0x5C then Some 0x5C
      else if c = 0x2F then Some 0x2F
      else if c = 0x62 then Some 0x08
      else if c = 0x66 then Some 0x0C
      else if c = 0x6E then Some 0x0A
      else if c = 0x72 then Some 0x0D
      else if c = 0x74 then Some 0x09
      else None)"

text \<open>
  The scanner reads one code unit at a time. Buffers hold what has been read of the
  current token, newest first. A number or a literal name is collected greedily and
  checked when it ends: in a JSON text no character of a number or a name can follow
  one directly.
\<close>

datatype lexmode =
    Plain
  | InString jsstring
  | InEscape jsstring
  | InUnicode jsstring "int list"
  | InNumber jsstring
  | InWord jsstring

definition isNumberUnit :: "16 word \<Rightarrow> bool" where
  "isNumberUnit c = (isDigit c \<or> c = 0x2D \<or> c = 0x2B \<or> c = 0x2E \<or> c = 0x65 \<or> c = 0x45)"

definition isWordUnit :: "16 word \<Rightarrow> bool" where
  "isWordUnit c = (0x61 \<le> c \<and> c \<le> 0x7A)"

definition isJSONSpace :: "16 word \<Rightarrow> bool" where
  "isJSONSpace c = (c = 0x09 \<or> c = 0x0A \<or> c = 0x0D \<or> c = 0x20)"

definition plainStep :: "token list \<Rightarrow> 16 word \<Rightarrow> (lexmode \<times> token list) option" where
  "plainStep acc c =
     (if isJSONSpace c then Some (Plain, acc)
      else if c = 0x7B then Some (Plain, TLBrace # acc)
      else if c = 0x7D then Some (Plain, TRBrace # acc)
      else if c = 0x5B then Some (Plain, TLBracket # acc)
      else if c = 0x5D then Some (Plain, TRBracket # acc)
      else if c = 0x3A then Some (Plain, TColon # acc)
      else if c = 0x2C then Some (Plain, TComma # acc)
      else if c = 0x22 then Some (InString [], acc)
      else if c = 0x2D \<or> isDigit c then Some (InNumber [c], acc)
      else if isWordUnit c then Some (InWord [c], acc)
      else None)"

fun lexStep :: "lexmode \<times> token list \<Rightarrow> 16 word \<Rightarrow> (lexmode \<times> token list) option" where
  "lexStep (Plain, acc) c = plainStep acc c"
| "lexStep (InString b, acc) c =
     (if c = 0x22 then Some (Plain, TString (rev b) # acc)
      else if c = 0x5C then Some (InEscape b, acc)
      else if c < 0x20 then None
      else Some (InString (c # b), acc))"
| "lexStep (InEscape b, acc) c =
     (if c = 0x75 then Some (InUnicode b [], acc)
      else (case escapeOf c of
              None \<Rightarrow> None
            | Some x \<Rightarrow> Some (InString (x # b), acc)))"
| "lexStep (InUnicode b hs, acc) c =
     (case hexVal c of
        None \<Rightarrow> None
      | Some h \<Rightarrow>
          if length hs = 3
          then Some (InString (word_of_int (foldl (\<lambda>a d. 16 * a + d) 0 (hs @ [h])) # b), acc)
          else Some (InUnicode b (hs @ [h]), acc))"
| "lexStep (InNumber b, acc) c =
     (if isNumberUnit c then Some (InNumber (c # b), acc)
      else (case numberOf (rev b) of
              None \<Rightarrow> None
            | Some x \<Rightarrow> plainStep (TNumber x # acc) c))"
| "lexStep (InWord b, acc) c =
     (if isWordUnit c then Some (InWord (c # b), acc)
      else (case wordOf (rev b) of
              None \<Rightarrow> None
            | Some t \<Rightarrow> plainStep (t # acc) c))"

fun lexRun :: "lexmode \<times> token list \<Rightarrow> jsstring \<Rightarrow> (lexmode \<times> token list) option" where
  "lexRun st [] = Some st"
| "lexRun st (c # cs) = (case lexStep st c of None \<Rightarrow> None | Some st' \<Rightarrow> lexRun st' cs)"

fun lexEnd :: "lexmode \<times> token list \<Rightarrow> token list option" where
  "lexEnd (Plain, acc) = Some (rev acc)"
| "lexEnd (InNumber b, acc) =
     (case numberOf (rev b) of None \<Rightarrow> None | Some x \<Rightarrow> Some (rev (TNumber x # acc)))"
| "lexEnd (InWord b, acc) =
     (case wordOf (rev b) of None \<Rightarrow> None | Some t \<Rightarrow> Some (rev (t # acc)))"
| "lexEnd (InString b, acc) = None"
| "lexEnd (InEscape b, acc) = None"
| "lexEnd (InUnicode b hs, acc) = None"

definition tokenize :: "jsstring \<Rightarrow> token list option" where
  "tokenize text = (case lexRun (Plain, []) text of None \<Rightarrow> None | Some st \<Rightarrow> lexEnd st)"

text \<open>
  \<^verbatim>\<open>CreateDataProperty\<close> on the object being built: a key that is present keeps its
  place and takes the new value; a new array index goes among the array indices in
  ascending order, ahead of all other keys; any other new key goes last.
\<close>

definition arrayIndex :: "jsstring \<Rightarrow> int option" where
  "arrayIndex k =
     (if k \<noteq> [] \<and> list_all isDigit k \<and> (length k = 1 \<or> hd k \<noteq> 0x30)
         \<and> length k \<le> 10 \<and> intOfDigits k < 4294967295
      then Some (intOfDigits k) else None)"

fun insertIndex :: "int \<Rightarrow> jsstring \<Rightarrow> jsval \<Rightarrow> (jsstring \<times> jsval) list \<Rightarrow> (jsstring \<times> jsval) list" where
  "insertIndex i k v [] = [(k, v)]"
| "insertIndex i k v ((k', v') # ms) =
     (case arrayIndex k' of
        None \<Rightarrow> (k, v) # (k', v') # ms
      | Some j \<Rightarrow> if i < j then (k, v) # (k', v') # ms else (k', v') # insertIndex i k v ms)"

definition defineProperty :: "(jsstring \<times> jsval) list \<Rightarrow> jsstring \<Rightarrow> jsval \<Rightarrow> (jsstring \<times> jsval) list" where
  "defineProperty ms k v =
     (if k \<in> fst ` set ms then map (\<lambda>(k', v'). if k' = k then (k', v) else (k', v')) ms
      else (case arrayIndex k of None \<Rightarrow> ms @ [(k, v)] | Some i \<Rightarrow> insertIndex i k v ms))"

text \<open>
  The parser works on the tokens with an explicit stack of the containers that are
  open: an array with its elements so far, an object with its properties so far and the
  key whose value is being read.
\<close>

datatype frame = FArr "jsval list" | FObj "(jsstring \<times> jsval) list" "jsstring option"

datatype expect =
    Value
  | ValueOrEnd
  | KeyOrEnd
  | NextKey
  | Colon
  | CommaOrEnd
  | Finished jsval

fun deliver :: "jsval \<Rightarrow> frame list \<Rightarrow> (expect \<times> frame list) option" where
  "deliver v [] = Some (Finished v, [])"
| "deliver v (FArr es # st) = Some (CommaOrEnd, FArr (es @ [v]) # st)"
| "deliver v (FObj ms (Some k) # st) = Some (CommaOrEnd, FObj (defineProperty ms k v) None # st)"
| "deliver v (FObj ms None # st) = None"

fun startValue :: "token \<Rightarrow> frame list \<Rightarrow> (expect \<times> frame list) option" where
  "startValue TLBracket st = Some (ValueOrEnd, FArr [] # st)"
| "startValue TLBrace st = Some (KeyOrEnd, FObj [] None # st)"
| "startValue (TString t) st = deliver (JStr t) st"
| "startValue (TNumber x) st = deliver (JNum x) st"
| "startValue TTrue st = deliver (JBool True) st"
| "startValue TFalse st = deliver (JBool False) st"
| "startValue TNull st = deliver JNull st"
| "startValue TRBrace st = None"
| "startValue TRBracket st = None"
| "startValue TColon st = None"
| "startValue TComma st = None"

fun closeArray :: "frame list \<Rightarrow> (expect \<times> frame list) option" where
  "closeArray (FArr es # st) = deliver (JArr es) st"
| "closeArray _ = None"

fun closeObject :: "frame list \<Rightarrow> (expect \<times> frame list) option" where
  "closeObject (FObj ms None # st) = deliver (JObj ms) st"
| "closeObject _ = None"

fun startKey :: "token \<Rightarrow> frame list \<Rightarrow> (expect \<times> frame list) option" where
  "startKey (TString k) (FObj ms None # st) = Some (Colon, FObj ms (Some k) # st)"
| "startKey _ _ = None"

fun parseStep :: "expect \<times> frame list \<Rightarrow> token \<Rightarrow> (expect \<times> frame list) option" where
  "parseStep (Value, st) t = startValue t st"
| "parseStep (ValueOrEnd, st) t = (if t = TRBracket then closeArray st else startValue t st)"
| "parseStep (KeyOrEnd, st) t = (if t = TRBrace then closeObject st else startKey t st)"
| "parseStep (NextKey, st) t = startKey t st"
| "parseStep (Colon, st) t = (if t = TColon then Some (Value, st) else None)"
| "parseStep (CommaOrEnd, st) t =
     (if t = TComma then
        (case st of
           FArr es # _ \<Rightarrow> Some (Value, st)
         | FObj ms None # _ \<Rightarrow> Some (NextKey, st)
         | _ \<Rightarrow> None)
      else if t = TRBracket then closeArray st
      else if t = TRBrace then closeObject st
      else None)"
| "parseStep (Finished v, st) t = None"

fun parseRun :: "expect \<times> frame list \<Rightarrow> token list \<Rightarrow> (expect \<times> frame list) option" where
  "parseRun st [] = Some st"
| "parseRun st (t # ts) = (case parseStep st t of None \<Rightarrow> None | Some st' \<Rightarrow> parseRun st' ts)"

definition parseTokens :: "token list \<Rightarrow> jsval option" where
  "parseTokens ts =
     (case parseRun (Value, []) ts of
        Some (Finished v, _) \<Rightarrow> Some v
      | _ \<Rightarrow> None)"

text \<open>\<open>None\<close> is the SyntaxError that \<^verbatim>\<open>JSON.parse\<close> raises.\<close>

definition JSON_parse :: "jsstring \<Rightarrow> jsval option" where
  "JSON_parse text = (case tokenize text of None \<Rightarrow> None | Some ts \<Rightarrow> parseTokens ts)"

section \<open>The file cache and the run\<close>

text \<open>
  \<^verbatim>\<open>String.prototype.trim\<close> removes the white space and line terminators of
  ECMA-262 from both ends.
\<close>

definition isWhiteSpace :: "16 word \<Rightarrow> bool" where
  "isWhiteSpace c =
     (c = 0x09 \<or> c = 0x0A \<or> c = 0x0B \<or> c = 0x0C \<or> c = 0x0D \<or> c = 0x20 \<or> c = 0xA0
      \<or> c = 0x1680 \<or> (0x2000 \<le> c \<and> c \<le> 0x200A) \<or> c = 0x2028 \<or> c = 0x2029
      \<or> c = 0x202F \<or> c = 0x205F \<or> c = 0x3000 \<or> c = 0xFEFF)"

definition trim :: "jsstring \<Rightarrow> jsstring" where
  "trim t = rev (dropWhile isWhiteSpace (rev (dropWhile isWhiteSpace t)))"

definition cachePath :: "jsstring \<Rightarrow> jsstring" where
  "cachePath nm = str ''cache-'' @ nm @ str ''.json''"

text \<open>
  The \<^verbatim>\<open>try\<close> block: \<open>None\<close> stands for any exception raised in it (the file is
  missing, the content is blank, the content is not JSON), all of which the one
  \<^verbatim>\<open>catch\<close> receives.
\<close>

definition readCache :: "jsstring \<Rightarrow> state \<Rightarrow> jsval option" where
  "readCache nm s =
     (case files s (cachePath nm) of
        None \<Rightarrow> None
      | Some content \<Rightarrow> if trim content = [] then None else JSON_parse content)"

text \<open>
  The \<^verbatim>\<open>catch\<close> block. \<^verbatim>\<open>JSON.stringify\<close> of a value that has no JSON text is
  \<^verbatim>\<open>undefined\<close>, which \<^verbatim>\<open>fs.writeFile\<close> rejects with a TypeError.
\<close>

definition recompute :: "jsstring \<Rightarrow> jsval io \<Rightarrow> jsval io" where
  "recompute nm fetchData =
     andThen fetchData (\<lambda>result s.
       case JSON_stringify result of
         None \<Rightarrow> (Inl TypeError, s)
       | Some text \<Rightarrow> (Inr result, s\<lparr>files := (files s)(cachePath nm \<mapsto> text)\<rparr>))"

definition useFileCache :: "jsstring \<Rightarrow> jsval io \<Rightarrow> jsval io" where
  "useFileCache nm fetchData s =
     (case readCache nm s of
        Some v \<Rightarrow> (Inr v, s)
      | None \<Rightarrow> recompute nm fetchData s)"

text \<open>A flight result and a trip result as the objects the code builds.\<close>

definition flightObject :: "FlightResult \<Rightarrow> jsval" where
  "flightObject r =
     JObj [(str ''date'', JStr (FlightResult.date r)),
           (str ''origin'', JStr (FlightResult.origin r)),
           (str ''destination'', JStr (FlightResult.destination r)),
           (str ''departsAt'', JDate (departsAt r)),
           (str ''arrivesAt'', JDate (arrivesAt r)),
           (str ''url'', JStr (url r)),
           (str ''price'', JNum (FlightResult.price r)),
           (str ''carrier'', (case carrier r of None \<Rightarrow> JUndefined | Some c \<Rightarrow> JStr c))]"

definition tripResult :: "FlightResult list \<Rightarrow> FlightResult list \<Rightarrow> jsval" where
  "tripResult d r =
     JObj [(str ''depart'', JArr (map flightObject d)), (str ''return'', JArr (map flightObject r))]"

definition searchTrip :: "env \<Rightarrow> Trip \<Rightarrow> jsval io" where
  "searchTrip env t =
     andThen (getFlightResults env t Depart) (\<lambda>d.
     andThen (getFlightResults env t Return) (\<lambda>r.
     succeed (tripResult d r)))"

text \<open>
  \<^verbatim>\<open>main\<close> up to the point where the trip result is handed to
  \<^verbatim>\<open>writeToSpreadSheet\<close>.
\<close>

definition main :: "env \<Rightarrow> jsval io" where
  "main env = useFileCache (str ''results'') (searchTrip env trip)"

section \<open>The query expansion of the specification\<close>

text \<open>
  The specification describes the leg loop in two parts: an expansion of the leg into its
  queries, the cross product of origins, destinations and dates with the origin outermost
  and the date innermost, and a search of every query in that order. These two
  definitions follow the specification's words; the code has the three nested loops of
  \<open>getFlightResults\<close> instead.
\<close>

definition expand :: "FlightQuery \<Rightarrow> flightOpt list" where
  "expand q =
     map (\<lambda>(orig, dest, day).
            \<lparr> flightOpt.date = day, flightOpt.origin = orig, flightOpt.destination = dest \<rparr>)
       (List.product (origins q) (List.product (destinations q) (dates q)))"

definition expandLeg :: "Trip \<Rightarrow> legType \<Rightarrow> flightOpt list" where
  "expandLeg t ty = (case tripLeg t ty of None \<Rightarrow> [] | Some q \<Rightarrow> expand q)"

fun searchEach :: "env \<Rightarrow> flightOpt list \<Rightarrow> FlightResult list list io" where
  "searchEach env [] s = (Inr [], s)"
| "searchEach env (q # qs) s =
     (case getFlights env q s of
        (Inl e, s') \<Rightarrow> (Inl e, s')
      | (Inr found, s') \<Rightarrow>
          (case searchEach env qs s' of
             (Inl e, s'') \<Rightarrow> (Inl e, s'')
           | (Inr rest, s'') \<Rightarrow> (Inr (found # rest), s'')))"

definition collected ::
  "FlightResult list \<Rightarrow> (error + FlightResult list list) \<times> state \<Rightarrow> (error + FlightResult list) \<times> state" where
  "collected acc x =
     (case x of (Inl e, s') \<Rightarrow> (Inl e, s') | (Inr rss, s') \<Rightarrow> (Inr (acc @ concat rss), s'))"

section \<open>Reading the request log\<close>

text \<open>
  A request is unusable when it is a city lookup that the provider, given the requests
  before it, answers without a usable first suggestion. \<open>allUsable env base new\<close>
  says that none of the requests \<open>new\<close>, sent on top of the log \<open>base\<close>, is unusable.
  \<open>traced env base r new\<close> relates the outcome \<open>r\<close> of an operation to the requests
  it has sent: an unresolved-city error comes with an unusable lookup of that city as
  the newest request, after usable ones only; any other outcome comes with usable
  requests only.
\<close>

definition unusable :: "env \<Rightarrow> request list \<Rightarrow> request \<Rightarrow> bool" where
  "unusable env before req =
     (case req of
        AutoComplete nm \<Rightarrow>
          (case autoComplete env before nm of
             None \<Rightarrow> False
           | Some res \<Rightarrow> firstSuggestion res = None)
      | OneWayList p \<Rightarrow> False)"

fun allUsable :: "env \<Rightarrow> request list \<Rightarrow> request list \<Rightarrow> bool" where
  "allUsable env base [] = True"
| "allUsable env base (req # older) =
     (\<not> unusable env (older @ base) req \<and> allUsable env base older)"

definition traced :: "env \<Rightarrow> request list \<Rightarrow> error + 'a \<Rightarrow> request list \<Rightarrow> bool" where
  "traced env base r new =
     (case r of
        Inl (UnresolvedCityError nm res) \<Rightarrow>
          (case new of
             [] \<Rightarrow> False
           | req # older \<Rightarrow>
               req = AutoComplete nm \<and> allUsable env base older
               \<and> autoComplete env (older @ base) nm = Some res \<and> firstSuggestion res = None)
      | _ \<Rightarrow> allUsable env base new)"

section \<open>A scenario\<close>

text \<open>
  The end-to-end scenario of the specification: the provider knows Budapest and Corfu and
  gives every search the same answer.
\<close>

definition cityOf :: "string \<Rightarrow> string \<Rightarrow> string \<Rightarrow> CityInfo" where
  "cityOf sky ent nm =
     \<lparr> entityId = str ent, flightPlaceType = str ''CITY'', localizedName = str nm, skyId = str sky \<rparr>"

definition suggesting :: "CityInfo \<Rightarrow> SkyScannerSuggestions" where
  "suggesting c = \<lparr> inputSuggest = Some [\<lparr> navigation = Some \<lparr> relevantFlightParams = Some c \<rparr> \<rparr>] \<rparr>"

definition nonStopItem :: item where
  "nonStopItem =
     \<lparr> legs = [\<lparr> carriers = \<lparr> marketing = [\<lparr> name = str ''Test Air'' \<rparr>] \<rparr>,
                 arrival = str ''2025-09-11T08:00:00Z'',
                 departure = str ''2025-09-11T06:00:00Z'',
                 leg.origin = \<lparr> name = str ''Budapest'' \<rparr>,
                 leg.destination = \<lparr> name = str ''Corfu'' \<rparr>,
                 stopCount = Decimal 0 0 \<rparr>],
       item.price = \<lparr> raw = Decimal 12345 (-2) \<rparr> \<rparr>"

definition oneBucket :: "item list \<Rightarrow> SkyScannerFlights" where
  "oneBucket its =
     \<lparr> data = Some \<lparr> itineraries = Some \<lparr> buckets = Some [\<lparr> items = Some its \<rparr>] \<rparr> \<rparr> \<rparr>"

definition oneStopItem :: item where
  "oneStopItem =
     \<lparr> legs = [\<lparr> carriers = \<lparr> marketing = [] \<rparr>,
                 arrival = str ''2025-09-11T12:00:00Z'',
                 departure = str ''2025-09-11T05:00:00Z'',
                 leg.origin = \<lparr> name = str ''Budapest'' \<rparr>,
                 leg.destination = \<lparr> name = str ''Corfu'' \<rparr>,
                 stopCount = Decimal 1 0 \<rparr>],
       item.price = \<lparr> raw = Decimal 99 0 \<rparr> \<rparr>"

definition noItems :: SkyScannerFlights where
  "noItems = \<lparr> data = Some \<lparr> itineraries = Some \<lparr> buckets = Some [\<lparr> items = None \<rparr>] \<rparr> \<rparr> \<rparr>"

definition scenario :: "SkyScannerFlights \<Rightarrow> env" where
  "scenario answer =
     \<lparr> RAPID_API_KEY = Some (str ''key''),
       autoComplete = (\<lambda>h nm.
         if nm = str ''Budapest'' then Some (suggesting (cityOf ''BUD'' ''1'' ''Budapest''))
         else if nm = str ''Corfu'' then Some (suggesting (cityOf ''CFU'' ''2'' ''Corfu''))
         else Some \<lparr> inputSuggest = Some [] \<rparr>),
       oneWayList = (\<lambda>h p. Some answer),
       newDate = (\<lambda>t. Date (Some (takeWhile (\<lambda>c. c \<noteq> 0x5A) t @ str ''.000Z''))) \<rparr>"

definition fresh :: state where
  "fresh = \<lparr> cityInfo = Map.empty, files = Map.empty, calls = [] \<rparr>"

definition knowsBudapest :: state where
  "knowsBudapest =
     \<lparr> cityInfo = [str ''Budapest'' \<mapsto> cityOf ''BUD'' ''1'' ''Budapest''],
       files = Map.empty,
       calls = [AutoComplete (str ''Budapest'')] \<rparr>"

definition knowsBoth :: state where
  "knowsBoth =
     \<lparr> cityInfo = [str ''Budapest'' \<mapsto> cityOf ''BUD'' ''1'' ''Budapest'',
                   str ''Corfu'' \<mapsto> cityOf ''CFU'' ''2'' ''Corfu''],
       files = Map.empty,
       calls = [AutoComplete (str ''Corfu''), AutoComplete (str ''Budapest'')] \<rparr>"

definition budapestCorfu :: flightOpt where
  "budapestCorfu =
     \<lparr> flightOpt.date = str ''2025-09-11'', flightOpt.origin = str ''Budapest'',
       flightOpt.destination = str ''Corfu'' \<rparr>"

definition berlinUnknown :: state where
  "berlinUnknown =
     \<lparr> cityInfo = [str ''Budapest'' \<mapsto> cityOf ''BUD'' ''1'' ''Budapest'',
                   str ''Corfu'' \<mapsto> cityOf ''CFU'' ''2'' ''Corfu''],
       files = Map.empty,
       calls = [AutoComplete (str ''Berlin''),
                OneWayList (searchRequest (budapestCorfu\<lparr>flightOpt.date := str ''2025-09-12''\<rparr>)
                  (cityOf ''BUD'' ''1'' ''Budapest'') (cityOf ''CFU'' ''2'' ''Corfu'')),
                OneWayList (searchRequest budapestCorfu
                  (cityOf ''BUD'' ''1'' ''Budapest'') (cityOf ''CFU'' ''2'' ''Corfu'')),
                AutoComplete (str ''Corfu''), AutoComplete (str ''Budapest'')] \<rparr>"

definition withCache :: "jsstring \<Rightarrow> state" where
  "withCache content = fresh\<lparr>files := [cachePath (str ''results'') \<mapsto> content]\<rparr>"

definition keyless :: env where
  "keyless = scenario noItems\<lparr>RAPID_API_KEY := None\<rparr>"

definition emptyTrip :: jsstring where
  "emptyTrip = str ''{\"depart\":[],\"return\":[]}''"



section \<open>Properties\<close>

subsection \<open>The provider client and the city resolver\<close>

lemma fetchSkyscanner_noKey:
  "\<not> hasKey env \<Longrightarrow> fetchSkyscanner env req respond s = (Inl MissingCredentialError, s)"
  by (simp add: fetchSkyscanner_def hasKey_def split: option.splits)

lemma fetchSkyscanner_key:
  "hasKey env \<Longrightarrow> fetchSkyscanner env req respond s =
     ((case respond (calls s) of None \<Rightarrow> Inl ProviderRequestError | Some res \<Rightarrow> Inr res),
      s\<lparr>calls := req # calls s\<rparr>)"
  by (simp add: fetchSkyscanner_def hasKey_def split: option.splits)

lemma fetchSkyscanner_frame:
  assumes "fetchSkyscanner env req respond s = (r, s')"
  shows "cityInfo s' = cityInfo s \<and> files s' = files s
         \<and> (calls s' = calls s \<or> calls s' = req # calls s)"
  using assms by (cases "hasKey env") (auto simp: fetchSkyscanner_noKey fetchSkyscanner_key)

lemma getCityInfo_hit:
  "cityInfo s nm = Some info \<Longrightarrow> getCityInfo env nm s = (Inr info, s)"
  by (simp add: getCityInfo_def)

lemma getCityInfo_stores:
  assumes "getCityInfo env nm s = (Inr info, s')"
  shows "cityInfo s' nm = Some info"
  using assms
  by (auto simp: getCityInfo_def andThen_def fetchSkyscanner_def
           split: option.splits if_splits sum.splits prod.splits)

lemma getCityInfo_frame:
  assumes "getCityInfo env nm s = (r, s')"
  shows "files s' = files s
         \<and> (calls s' = calls s \<or> calls s' = AutoComplete nm # calls s)
         \<and> (cityInfo s' = cityInfo s
              \<or> (\<exists>info. cityInfo s nm = None \<and> cityInfo s' = (cityInfo s)(nm \<mapsto> info)))"
  using assms
  by (auto simp: getCityInfo_def andThen_def fetchSkyscanner_def
           split: option.splits if_splits sum.splits prod.splits)

text \<open>
  C5. Once a name has been resolved, resolving it again returns the descriptor that the
  first resolution stored and leaves the state as it is: no request is sent, whatever the
  provider would now answer. The first resolution sends at most one request.
\<close>

theorem getCityInfo_memo:
  assumes "getCityInfo env nm s = (Inr info, s1)"
  shows "getCityInfo env' nm s1 = (Inr info, s1)
         \<and> length (calls s1) \<le> Suc (length (calls s))"
proof -
  have "cityInfo s1 nm = Some info" using assms by (rule getCityInfo_stores)
  then have "getCityInfo env' nm s1 = (Inr info, s1)" by (rule getCityInfo_hit)
  moreover have "length (calls s1) \<le> Suc (length (calls s))"
    using getCityInfo_frame [OF assms] by auto
  ultimately show ?thesis by simp
qed

lemma scenario_hasKey: "hasKey (scenario a)"
  by (simp add: hasKey_def scenario_def str_def)

lemma scenario_Budapest:
  "getCityInfo (scenario a) (str ''Budapest'') fresh = (Inr (cityOf ''BUD'' ''1'' ''Budapest''), knowsBudapest)"
  by (simp add: getCityInfo_def andThen_def fetchSkyscanner_def scenario_def fresh_def
        knowsBudapest_def firstSuggestion_def suggesting_def str_def)

lemma scenario_Corfu:
  "getCityInfo (scenario a) (str ''Corfu'') knowsBudapest = (Inr (cityOf ''CFU'' ''2'' ''Corfu''), knowsBoth)"
  by (simp add: getCityInfo_def andThen_def fetchSkyscanner_def scenario_def fresh_def
        knowsBudapest_def knowsBoth_def firstSuggestion_def suggesting_def str_def)

theorem getCityInfo_memo_witness:
  "getCityInfo (scenario noItems) (str ''Budapest'') fresh = (Inr (cityOf ''BUD'' ''1'' ''Budapest''), knowsBudapest)
   \<and> getCityInfo (scenario noItems\<lparr>RAPID_API_KEY := None\<rparr>) (str ''Budapest'') knowsBudapest =
       (Inr (cityOf ''BUD'' ''1'' ''Budapest''), knowsBudapest)
   \<and> length (calls knowsBudapest) \<le> Suc (length (calls fresh))"
  using getCityInfo_memo [OF scenario_Budapest [of noItems],
          where env' = "scenario noItems\<lparr>RAPID_API_KEY := None\<rparr>"]
    scenario_Budapest [of noItems] by (simp add: knowsBudapest_def fresh_def)

subsection \<open>The flight search\<close>

lemma forEach_Inr:
  assumes "\<forall>x\<in>set xs. \<exists>r. f x = Inr r"
  shows "\<exists>rs. forEach f xs acc = Inr (acc @ rs) \<and> map Inr rs = map f xs"
  using assms
proof (induction xs arbitrary: acc)
  case Nil
  then show ?case by simp
next
  case (Cons x xs)
  from Cons.prems obtain r where r: "f x = Inr r" by auto
  from Cons.prems have "\<forall>x\<in>set xs. \<exists>r. f x = Inr r" by simp
  from Cons.IH [OF this, of "acc @ [r]"] obtain rs
    where "forEach f xs (acc @ [r]) = Inr ((acc @ [r]) @ rs)" "map Inr rs = map f xs"
    by blast
  with r have "forEach f (x # xs) acc = Inr (acc @ (r # rs)) \<and> map Inr (r # rs) = map f (x # xs)"
    by simp
  then show ?case by blast
qed

lemma nonStop_legs:
  "nonStop it \<Longrightarrow> \<exists>l ls. legs it = l # ls \<and> isZero (stopCount l)"
  by (auto simp: nonStop_def split: list.splits)

lemma flightResult_nonStop:
  "nonStop it \<Longrightarrow> \<exists>r. flightResult env opt oi di it = Inr r"
  by (auto simp: nonStop_def flightResult_def split: list.splits)

lemma readFlights_noBucket:
  "firstBucket result = None \<Longrightarrow> readFlights env opt oi di result = Inr []"
  by (simp add: readFlights_def)

lemma readFlights_noItems:
  "firstBucket result = Some b \<Longrightarrow> items b = None \<Longrightarrow>
   readFlights env opt oi di result = Inl TypeError"
  by (simp add: readFlights_def)

lemma readFlights_items:
  assumes "firstBucket result = Some b" and "items b = Some its"
  shows "\<exists>rs. readFlights env opt oi di result = Inr rs
              \<and> map Inr rs = map (flightResult env opt oi di) (filter nonStop its)"
proof -
  have "\<forall>x\<in>set (filter nonStop its). \<exists>r. flightResult env opt oi di x = Inr r"
    by (simp add: flightResult_nonStop)
  from forEach_Inr [OF this, of "[]"] show ?thesis
    using assms by (simp add: readFlights_def)
qed

lemma getFlights_response:
  assumes "getCityInfo env (flightOpt.origin opt) s = (Inr oi, s1)"
    and "getCityInfo env (flightOpt.destination opt) s1 = (Inr di, s2)"
    and "hasKey env"
    and "oneWayList env (calls s2) (searchRequest opt oi di) = Some result"
  shows "getFlights env opt s =
           (readFlights env opt oi di result,
            s2\<lparr>calls := OneWayList (searchRequest opt oi di) # calls s2\<rparr>)"
  using assms by (simp add: getFlights_def andThen_def fetchSkyscanner_key)

lemma getFlights_cases:
  assumes "getFlights env opt s = (r, s')"
  shows "(\<exists>e. r = Inl e \<and> getCityInfo env (flightOpt.origin opt) s = (Inl e, s'))
       \<or> (\<exists>oi s1 e. r = Inl e \<and> getCityInfo env (flightOpt.origin opt) s = (Inr oi, s1)
             \<and> getCityInfo env (flightOpt.destination opt) s1 = (Inl e, s'))
       \<or> (\<exists>oi s1 di s2. getCityInfo env (flightOpt.origin opt) s = (Inr oi, s1)
             \<and> getCityInfo env (flightOpt.destination opt) s1 = (Inr di, s2)
             \<and> (if hasKey env
                  then s' = s2\<lparr>calls := OneWayList (searchRequest opt oi di) # calls s2\<rparr>
                    \<and> (case oneWayList env (calls s2) (searchRequest opt oi di) of
                          None \<Rightarrow> r = Inl ProviderRequestError
                        | Some result \<Rightarrow> r = readFlights env opt oi di result)
                  else s' = s2 \<and> r = Inl MissingCredentialError))"
  using assms
  by (cases "hasKey env")
     (auto simp: getFlights_def andThen_def fetchSkyscanner_noKey fetchSkyscanner_key
           split: prod.splits sum.splits option.splits)

lemma getFlights_frame:
  assumes "getFlights env opt s = (r, s')"
  shows "files s' = files s \<and> cityInfo s \<subseteq>\<^sub>m cityInfo s'"
proof -
  have step: "\<And>nm t r t'. getCityInfo env nm t = (r, t') \<Longrightarrow>
                 files t' = files t \<and> cityInfo t \<subseteq>\<^sub>m cityInfo t'"
  proof -
    fix nm t r t'
    assume "getCityInfo env nm t = (r, t')"
    from getCityInfo_frame [OF this]
    show "files t' = files t \<and> cityInfo t \<subseteq>\<^sub>m cityInfo t'"
      by (auto simp: map_le_def)
  qed
  from getFlights_cases [OF assms] show ?thesis
  proof (elim disjE exE conjE)
    fix e assume "getCityInfo env (flightOpt.origin opt) s = (Inl e, s')"
    from step [OF this] show ?thesis .
  next
    fix oi s1 e
    assume a: "getCityInfo env (flightOpt.origin opt) s = (Inr oi, s1)"
      and b: "getCityInfo env (flightOpt.destination opt) s1 = (Inl e, s')"
    from step [OF a] step [OF b] show ?thesis by (auto intro: map_le_trans)
  next
    fix oi s1 di s2
    assume a: "getCityInfo env (flightOpt.origin opt) s = (Inr oi, s1)"
      and b: "getCityInfo env (flightOpt.destination opt) s1 = (Inr di, s2)"
      and c: "if hasKey env
                  then s' = s2\<lparr>calls := OneWayList (searchRequest opt oi di) # calls s2\<rparr>
                    \<and> (case oneWayList env (calls s2) (searchRequest opt oi di) of
                          None \<Rightarrow> r = Inl ProviderRequestError
                        | Some result \<Rightarrow> r = readFlights env opt oi di result)
                  else s' = s2 \<and> r = Inl MissingCredentialError"
    from c have "files s' = files s2 \<and> cityInfo s' = cityInfo s2" by (auto split: if_splits)
    with step [OF a] step [OF b] show ?thesis by (auto intro: map_le_trans)
  qed
qed


text \<open>
  C7. When both cities resolve and the provider answers, with a first bucket whose items
  are present, the search succeeds, and its output is built from exactly the items that
  pass the filter, in their order: an item whose first leg has a stop count other than
  zero is not among them, and every one of them has a first leg with zero stops.
\<close>

theorem getFlights_nonStop_only:
  assumes "getCityInfo env (flightOpt.origin opt) s = (Inr oi, s1)"
    and "getCityInfo env (flightOpt.destination opt) s1 = (Inr di, s2)"
    and "hasKey env"
    and "oneWayList env (calls s2) (searchRequest opt oi di) = Some result"
    and "firstBucket result = Some b"
    and "items b = Some its"
  shows "\<exists>rs. getFlights env opt s =
                 (Inr rs, s2\<lparr>calls := OneWayList (searchRequest opt oi di) # calls s2\<rparr>)
              \<and> map Inr rs = map (flightResult env opt oi di) (filter nonStop its)
              \<and> (\<forall>it l ls. legs it = l # ls \<and> \<not> isZero (stopCount l)
                     \<longrightarrow> it \<notin> set (filter nonStop its))
              \<and> (\<forall>it\<in>set (filter nonStop its). \<exists>l ls. legs it = l # ls \<and> isZero (stopCount l))"
proof -
  from readFlights_items [OF assms(5,6)] obtain rs
    where rs: "readFlights env opt oi di result = Inr rs"
      "map Inr rs = map (flightResult env opt oi di) (filter nonStop its)"
    by blast
  have "getFlights env opt s =
          (Inr rs, s2\<lparr>calls := OneWayList (searchRequest opt oi di) # calls s2\<rparr>)"
    using getFlights_response [OF assms(1-4)] rs(1) by simp
  moreover have "\<forall>it l ls. legs it = l # ls \<and> \<not> isZero (stopCount l)
                   \<longrightarrow> it \<notin> set (filter nonStop its)"
    by (auto simp: nonStop_def)
  moreover have "\<forall>it\<in>set (filter nonStop its). \<exists>l ls. legs it = l # ls \<and> isZero (stopCount l)"
    by (auto dest: nonStop_legs)
  ultimately show ?thesis using rs(2) by blast
qed

lemma scenario_response: "oneWayList (scenario a) h p = Some a"
  by (simp add: scenario_def)

lemma firstBucket_oneBucket: "firstBucket (oneBucket its) = Some \<lparr> items = Some its \<rparr>"
  by (simp add: firstBucket_def oneBucket_def)

lemma firstBucket_noItems: "firstBucket noItems = Some \<lparr> items = None \<rparr>"
  by (simp add: firstBucket_def noItems_def)

lemma filter_mixed: "filter nonStop [oneStopItem, nonStopItem] = [nonStopItem]"
  by (simp add: nonStop_def oneStopItem_def nonStopItem_def)

lemma scenario_origin:
  "getCityInfo (scenario a) (flightOpt.origin budapestCorfu) fresh
     = (Inr (cityOf ''BUD'' ''1'' ''Budapest''), knowsBudapest)"
  using scenario_Budapest by (simp add: budapestCorfu_def)

lemma scenario_destination:
  "getCityInfo (scenario a) (flightOpt.destination budapestCorfu) knowsBudapest
     = (Inr (cityOf ''CFU'' ''2'' ''Corfu''), knowsBoth)"
  using scenario_Corfu by (simp add: budapestCorfu_def)

theorem getFlights_nonStop_only_witness:
  "\<exists>rs. getFlights (scenario (oneBucket [oneStopItem, nonStopItem])) budapestCorfu fresh =
          (Inr rs, knowsBoth\<lparr>calls := OneWayList (searchRequest budapestCorfu
                       (cityOf ''BUD'' ''1'' ''Budapest'') (cityOf ''CFU'' ''2'' ''Corfu'')) # calls knowsBoth\<rparr>)
      \<and> map Inr rs = [flightResult (scenario (oneBucket [oneStopItem, nonStopItem])) budapestCorfu
                         (cityOf ''BUD'' ''1'' ''Budapest'') (cityOf ''CFU'' ''2'' ''Corfu'') nonStopItem]"
proof -
  have i: "items \<lparr> items = Some [oneStopItem, nonStopItem] \<rparr> = Some [oneStopItem, nonStopItem]"
    by simp
  from getFlights_nonStop_only [OF scenario_origin scenario_destination scenario_hasKey
         scenario_response firstBucket_oneBucket i, unfolded filter_mixed]
  show ?thesis by auto
qed

text \<open>
  C9. The items of the first bucket are read without a check: when they are absent the
  search raises a TypeError. When they are present the search returns a result for every
  item that passes the filter, and each such item has a first leg, so that building its
  result does not read an absent leg.
\<close>

theorem getFlights_items_precondition:
  assumes "getCityInfo env (flightOpt.origin opt) s = (Inr oi, s1)"
    and "getCityInfo env (flightOpt.destination opt) s1 = (Inr di, s2)"
    and "hasKey env"
    and "oneWayList env (calls s2) (searchRequest opt oi di) = Some result"
    and "firstBucket result = Some b"
  shows "(items b = None \<longrightarrow> fst (getFlights env opt s) = Inl TypeError)
       \<and> (\<forall>its. items b = Some its \<longrightarrow>
             (\<exists>rs. fst (getFlights env opt s) = Inr rs \<and> length rs = length (filter nonStop its))
           \<and> (\<forall>it\<in>set (filter nonStop its).
                 legs it \<noteq> [] \<and> flightResult env opt oi di it \<noteq> Inl TypeError))"
proof (intro conjI impI allI)
  assume "items b = None"
  from readFlights_noItems [OF assms(5) this] getFlights_response [OF assms(1-4)]
  show "fst (getFlights env opt s) = Inl TypeError" by simp
next
  fix its assume its: "items b = Some its"
  from readFlights_items [OF assms(5) its] obtain rs
    where rs: "readFlights env opt oi di result = Inr rs"
      "map Inr rs = map (flightResult env opt oi di) (filter nonStop its)"
    by blast
  from rs(2) have "length (map (Inr :: FlightResult \<Rightarrow> error + FlightResult) rs)
                     = length (map (flightResult env opt oi di) (filter nonStop its))"
    by simp
  then have "length rs = length (filter nonStop its)" by simp
  with rs(1) getFlights_response [OF assms(1-4)]
  show "\<exists>rs. fst (getFlights env opt s) = Inr rs \<and> length rs = length (filter nonStop its)"
    by simp
next
  fix its assume "items b = Some its"
  show "\<forall>it\<in>set (filter nonStop its).
          legs it \<noteq> [] \<and> flightResult env opt oi di it \<noteq> Inl TypeError"
  proof
    fix it assume "it \<in> set (filter nonStop its)"
    then have n: "nonStop it" by simp
    from nonStop_legs [OF n] flightResult_nonStop [OF n, of env opt oi di]
    show "legs it \<noteq> [] \<and> flightResult env opt oi di it \<noteq> Inl TypeError" by auto
  qed
qed

theorem getFlights_items_precondition_witness:
  "fst (getFlights (scenario noItems) budapestCorfu fresh) = Inl TypeError"
  using getFlights_items_precondition [OF scenario_origin scenario_destination scenario_hasKey
          scenario_response firstBucket_noItems]
  by simp

subsection \<open>The leg loop\<close>

lemma searchEach_append:
  "searchEach env (xs @ ys) s =
     (case searchEach env xs s of
        (Inl e, s') \<Rightarrow> (Inl e, s')
      | (Inr a, s') \<Rightarrow>
          (case searchEach env ys s' of
             (Inl e, s'') \<Rightarrow> (Inl e, s'')
           | (Inr b, s'') \<Rightarrow> (Inr (a @ b), s'')))"
  by (induction xs arbitrary: s) (auto split: prod.splits sum.splits)

lemma collected_append:
  "collected acc (searchEach env (xs @ ys) s) =
     (case collected acc (searchEach env xs s) of
        (Inl e, s') \<Rightarrow> (Inl e, s')
      | (Inr acc', s') \<Rightarrow> collected acc' (searchEach env ys s'))"
  by (auto simp: searchEach_append collected_def split: prod.splits sum.splits)

lemma forDates_searchEach:
  "forDates env orig dest ds acc s =
     collected acc (searchEach env
       (map (\<lambda>day. \<lparr> flightOpt.date = day, flightOpt.origin = orig,
                       flightOpt.destination = dest \<rparr>) ds) s)"
  by (induction ds arbitrary: acc s) (auto simp: collected_def split: prod.splits sum.splits)

lemma forDestinations_searchEach:
  "forDestinations env q orig dests acc s =
     collected acc (searchEach env
       (concat (map (\<lambda>dest. map (\<lambda>day. \<lparr> flightOpt.date = day, flightOpt.origin = orig,
                       flightOpt.destination = dest \<rparr>) (dates q)) dests)) s)"
proof (induction dests arbitrary: acc s)
  case Nil
  then show ?case by (simp add: collected_def)
next
  case (Cons dest dests)
  show ?case
    by (simp add: collected_append forDates_searchEach Cons.IH split: prod.splits sum.splits)
qed

lemma forOrigins_searchEach:
  "forOrigins env q origs acc s =
     collected acc (searchEach env
       (concat (map (\<lambda>orig. concat (map (\<lambda>dest. map (\<lambda>day.
             \<lparr> flightOpt.date = day, flightOpt.origin = orig, flightOpt.destination = dest \<rparr>)
           (dates q)) (destinations q))) origs)) s)"
proof (induction origs arbitrary: acc s)
  case Nil
  then show ?case by (simp add: collected_def)
next
  case (Cons orig origs)
  show ?case
    by (simp add: collected_append forDestinations_searchEach Cons.IH split: prod.splits sum.splits)
qed

lemma expand_nested:
  "expand q =
     concat (map (\<lambda>orig. concat (map (\<lambda>dest. map (\<lambda>day.
             \<lparr> flightOpt.date = day, flightOpt.origin = orig, flightOpt.destination = dest \<rparr>)
           (dates q)) (destinations q))) (origins q))"
  by (simp add: expand_def product_concat_map map_concat comp_def)

lemma getFlightResults_searchEach:
  "getFlightResults env t ty s = collected [] (searchEach env (expandLeg t ty) s)"
  by (simp add: getFlightResults_def expandLeg_def forOrigins_searchEach expand_nested collected_def
           split: option.splits)

lemma length_expand:
  "length (expand q) = length (origins q) * length (destinations q) * length (dates q)"
  by (simp add: expand_def)

lemma expand_nth:
  assumes "n < length (origins q) * length (destinations q) * length (dates q)"
  shows "expand q ! n =
           \<lparr> flightOpt.date = dates q ! (n mod length (dates q)),
             flightOpt.origin = origins q ! (n div (length (destinations q) * length (dates q))),
             flightOpt.destination = destinations q ! (n div length (dates q) mod length (destinations q)) \<rparr>"
proof -
  let ?D = "length (destinations q)" and ?T = "length (dates q)"
  from assms have n: "n < length (origins q) * (?D * ?T)" by (simp add: mult.assoc)
  have T: "0 < ?T" using assms by (cases "?T") auto
  have D: "0 < ?D" using assms by (cases "?D") auto
  have m: "n mod (?D * ?T) < ?D * ?T" using T D by simp
  have "expand q ! n =
          (\<lambda>(orig, dest, day). \<lparr> flightOpt.date = day, flightOpt.origin = orig, flightOpt.destination = dest \<rparr>)
            (List.product (origins q) (List.product (destinations q) (dates q)) ! n)"
    using n by (simp add: expand_def)
  also have "List.product (origins q) (List.product (destinations q) (dates q)) ! n =
               (origins q ! (n div (?D * ?T)),
                List.product (destinations q) (dates q) ! (n mod (?D * ?T)))"
    using n by (simp add: product_nth)
  also have "List.product (destinations q) (dates q) ! (n mod (?D * ?T)) =
               (destinations q ! (n mod (?D * ?T) div ?T), dates q ! (n mod (?D * ?T) mod ?T))"
    using m by (simp add: product_nth)
  also have "n mod (?D * ?T) div ?T = n div ?T mod ?D"
    using T by (simp add: mult.commute mod_mult2_eq)
  also have "n mod (?D * ?T) mod ?T = n mod ?T"
    by (simp add: mod_mult2_eq mult.commute)
  finally show ?thesis by simp
qed


lemma searchEach_length:
  "searchEach env qs s = (Inr rss, s') \<Longrightarrow> length rss = length qs"
  by (induction qs arbitrary: s rss) (auto split: prod.splits sum.splits)

text \<open>
  C6. The nested loops of \<open>getFlightResults\<close> search the queries of the expansion one
  after the other, in the order of the expansion, and return the concatenation of their
  results in that order. The expansion of an absent leg is empty; the expansion of a leg
  has one query for every combination of an origin, a destination and a date, the origin
  varying slowest and the date fastest.
\<close>

theorem getFlightResults_expansion:
  "getFlightResults env t ty s = collected [] (searchEach env (expandLeg t ty) s)
   \<and> (\<forall>rss s'. searchEach env (expandLeg t ty) s = (Inr rss, s') \<longrightarrow>
          length rss = length (expandLeg t ty)
        \<and> getFlightResults env t ty s = (Inr (concat rss), s'))
   \<and> (tripLeg t ty = None \<longrightarrow> expandLeg t ty = [])
   \<and> (\<forall>q. tripLeg t ty = Some q \<longrightarrow>
          length (expandLeg t ty) = length (origins q) * length (destinations q) * length (dates q)
        \<and> (\<forall>n < length (origins q) * length (destinations q) * length (dates q).
              expandLeg t ty ! n =
                \<lparr> flightOpt.date = dates q ! (n mod length (dates q)),
                  flightOpt.origin = origins q ! (n div (length (destinations q) * length (dates q))),
                  flightOpt.destination =
                    destinations q ! (n div length (dates q) mod length (destinations q)) \<rparr>))"
proof (intro conjI allI impI)
  show "getFlightResults env t ty s = collected [] (searchEach env (expandLeg t ty) s)"
    by (rule getFlightResults_searchEach)
next
  fix rss s' assume "searchEach env (expandLeg t ty) s = (Inr rss, s')"
  then show "length rss = length (expandLeg t ty)" by (rule searchEach_length)
next
  fix rss s' assume "searchEach env (expandLeg t ty) s = (Inr rss, s')"
  then show "getFlightResults env t ty s = (Inr (concat rss), s')"
    by (simp add: getFlightResults_searchEach collected_def)
next
  assume "tripLeg t ty = None"
  then show "expandLeg t ty = []" by (simp add: expandLeg_def)
next
  fix q assume "tripLeg t ty = Some q"
  then show "length (expandLeg t ty) = length (origins q) * length (destinations q) * length (dates q)"
    by (simp add: expandLeg_def length_expand)
next
  fix q n
  assume "tripLeg t ty = Some q"
    and "n < length (origins q) * length (destinations q) * length (dates q)"
  then show "expandLeg t ty ! n =
                \<lparr> flightOpt.date = dates q ! (n mod length (dates q)),
                  flightOpt.origin = origins q ! (n div (length (destinations q) * length (dates q))),
                  flightOpt.destination =
                    destinations q ! (n div length (dates q) mod length (destinations q)) \<rparr>"
    by (simp add: expandLeg_def expand_nth)
qed

lemma tripLeg_trip_Depart:
  "tripLeg trip Depart =
     Some \<lparr> dates = [str ''2025-09-11'', str ''2025-09-12''],
            origins = [str ''Budapest'', str ''Berlin'', str ''London''],
            destinations = [str ''Corfu''] \<rparr>"
  by (simp add: tripLeg_def trip_def)

theorem getFlightResults_expansion_witness:
  "length (expandLeg trip Depart) = 6
   \<and> expandLeg trip Depart ! 3 =
       \<lparr> flightOpt.date = str ''2025-09-12'', flightOpt.origin = str ''Berlin'',
         flightOpt.destination = str ''Corfu'' \<rparr>
   \<and> getFlightResults (scenario noItems) trip Depart fresh =
       collected [] (searchEach (scenario noItems) (expandLeg trip Depart) fresh)"
proof -
  let ?q = "\<lparr> dates = [str ''2025-09-11'', str ''2025-09-12''],
              origins = [str ''Budapest'', str ''Berlin'', str ''London''],
              destinations = [str ''Corfu''] \<rparr>"
  note c6 = getFlightResults_expansion [of "scenario noItems" trip Depart fresh]
  have lens: "length (origins ?q) = 3" "length (destinations ?q) = 1" "length (dates ?q) = 2"
    by simp_all
  from c6 tripLeg_trip_Depart
  have len: "length (expandLeg trip Depart)
               = length (origins ?q) * length (destinations ?q) * length (dates ?q)"
    and nth: "\<forall>n < length (origins ?q) * length (destinations ?q) * length (dates ?q).
              expandLeg trip Depart ! n =
                \<lparr> flightOpt.date = dates ?q ! (n mod length (dates ?q)),
                  flightOpt.origin = origins ?q ! (n div (length (destinations ?q) * length (dates ?q))),
                  flightOpt.destination =
                    destinations ?q ! (n div length (dates ?q) mod length (destinations ?q)) \<rparr>"
    by blast+
  from len have "length (expandLeg trip Depart) = 6" unfolding lens by simp
  moreover have "(3::nat) < 3 * 1 * 2" by simp
  with nth [unfolded lens] have "expandLeg trip Depart ! 3 =
       \<lparr> flightOpt.date = dates ?q ! (3 mod 2),
         flightOpt.origin = origins ?q ! (3 div (1 * 2)),
         flightOpt.destination = destinations ?q ! (3 div 2 mod 1) \<rparr>"
    by blast
  then have "expandLeg trip Depart ! 3 =
       \<lparr> flightOpt.date = str ''2025-09-12'', flightOpt.origin = str ''Berlin'',
         flightOpt.destination = str ''Corfu'' \<rparr>"
    by simp
  moreover from c6 have "getFlightResults (scenario noItems) trip Depart fresh =
       collected [] (searchEach (scenario noItems) (expandLeg trip Depart) fresh)"
    by blast
  ultimately show ?thesis by blast
qed

subsection \<open>The request log\<close>

lemma allUsable_append:
  "allUsable env base (new2 @ new1) = (allUsable env (new1 @ base) new2 \<and> allUsable env base new1)"
  by (induction new2) auto

lemma traced_Inr: "traced env base (Inr x) new = allUsable env base new"
  by (simp add: traced_def)

lemma traced_seq:
  assumes "allUsable env base new1" and "traced env (new1 @ base) r new2"
  shows "traced env base r (new2 @ new1)"
  using assms
  by (auto simp: traced_def allUsable_append split: sum.splits error.splits list.splits)

lemma traced_nil: "\<not> (\<exists>nm res. r = Inl (UnresolvedCityError nm res)) \<Longrightarrow> traced env base r []"
  by (auto simp: traced_def split: sum.splits error.splits)

lemma getCityInfo_traced:
  assumes "getCityInfo env nm s = (r, s')"
  shows "\<exists>new. calls s' = new @ calls s \<and> traced env (calls s) r new"
proof (cases "cityInfo s nm")
  case (Some info)
  with assms have "calls s' = [] @ calls s \<and> traced env (calls s) r []"
    by (auto simp: getCityInfo_def traced_def)
  then show ?thesis by blast
next
  case None
  show ?thesis
  proof (cases "hasKey env")
    case False
    with None assms have "calls s' = [] @ calls s \<and> traced env (calls s) r []"
      by (auto simp: getCityInfo_def andThen_def fetchSkyscanner_noKey traced_def)
    then show ?thesis by blast
  next
    case True
    with None assms
    have "calls s' = [AutoComplete nm] @ calls s \<and> traced env (calls s) r [AutoComplete nm]"
      by (auto simp: getCityInfo_def andThen_def fetchSkyscanner_key traced_def unusable_def
               split: option.splits)
    then show ?thesis by blast
  qed
qed

lemma readFlights_outcome:
  "(\<exists>rs. readFlights env opt oi di result = Inr rs)
   \<or> readFlights env opt oi di result = Inl TypeError"
proof (cases "firstBucket result")
  case None
  then show ?thesis by (simp add: readFlights_noBucket)
next
  case (Some b)
  show ?thesis
  proof (cases "items b")
    case None
    with Some show ?thesis by (simp add: readFlights_noItems)
  next
    case (Some its)
    with \<open>firstBucket result = Some b\<close> readFlights_items [of result b its env opt oi di]
    show ?thesis by blast
  qed
qed

lemma readFlights_resolved:
  "readFlights env opt oi di result \<noteq> Inl (UnresolvedCityError nm res)"
  using readFlights_outcome [of env opt oi di result] by auto

lemma getFlights_traced:
  assumes "getFlights env opt s = (r, s')"
  shows "\<exists>new. calls s' = new @ calls s \<and> traced env (calls s) r new"
  using getFlights_cases [OF assms]
proof (elim disjE exE conjE)
  fix e assume r: "r = Inl e" and g: "getCityInfo env (flightOpt.origin opt) s = (Inl e, s')"
  from getCityInfo_traced [OF g] obtain new
    where n: "calls s' = new @ calls s" "traced env (calls s) (Inl e :: error + CityInfo) new"
    by blast
  from n(2) r have "traced env (calls s) r new" by (simp add: traced_def)
  with n(1) show ?thesis by blast
next
  fix oi s1 e
  assume r: "r = Inl e"
    and a: "getCityInfo env (flightOpt.origin opt) s = (Inr oi, s1)"
    and b: "getCityInfo env (flightOpt.destination opt) s1 = (Inl e, s')"
  from getCityInfo_traced [OF a] obtain n1
    where n1: "calls s1 = n1 @ calls s" "allUsable env (calls s) n1"
    by (auto simp: traced_Inr)
  from getCityInfo_traced [OF b] obtain n2
    where n2: "calls s' = n2 @ calls s1" "traced env (calls s1) (Inl e :: error + CityInfo) n2"
    by blast
  from n2(2) have "traced env (n1 @ calls s) r n2"
    using n1(1) r by (simp add: traced_def)
  from traced_seq [OF n1(2) this] n1(1) n2(1) show ?thesis by auto
next
  fix oi s1 di s2
  assume a: "getCityInfo env (flightOpt.origin opt) s = (Inr oi, s1)"
    and b: "getCityInfo env (flightOpt.destination opt) s1 = (Inr di, s2)"
    and c: "if hasKey env
                  then s' = s2\<lparr>calls := OneWayList (searchRequest opt oi di) # calls s2\<rparr>
                    \<and> (case oneWayList env (calls s2) (searchRequest opt oi di) of
                          None \<Rightarrow> r = Inl ProviderRequestError
                        | Some result \<Rightarrow> r = readFlights env opt oi di result)
                  else s' = s2 \<and> r = Inl MissingCredentialError"
  from getCityInfo_traced [OF a] obtain n1
    where n1: "calls s1 = n1 @ calls s" "allUsable env (calls s) n1"
    by (auto simp: traced_Inr)
  from getCityInfo_traced [OF b] obtain n2
    where n2: "calls s2 = n2 @ calls s1" "allUsable env (calls s1) n2"
    by (auto simp: traced_Inr)
  have u: "allUsable env (calls s) (n2 @ n1)"
    using n1 n2 by (simp add: allUsable_append)
  have nr: "\<not> (\<exists>nm res. r = Inl (UnresolvedCityError nm res))"
    using c by (auto simp: readFlights_resolved split: if_splits option.splits)
  show ?thesis
  proof (cases "hasKey env")
    case False
    with c have "calls s' = (n2 @ n1) @ calls s" using n1 n2 by simp
    moreover from nr u have "traced env (calls s) r (n2 @ n1)"
      by (auto simp: traced_def split: sum.splits error.splits)
    ultimately show ?thesis by blast
  next
    case True
    let ?req = "OneWayList (searchRequest opt oi di)"
    from True c have "calls s' = (?req # n2 @ n1) @ calls s" using n1 n2 by simp
    moreover have "allUsable env (calls s) (?req # n2 @ n1)"
      using u by (simp add: unusable_def)
    with nr have "traced env (calls s) r (?req # n2 @ n1)"
      by (auto simp: traced_def split: sum.splits error.splits)
    ultimately show ?thesis by blast
  qed
qed

lemma searchEach_traced:
  "searchEach env qs s = (r, s') \<Longrightarrow>
   \<exists>new. calls s' = new @ calls s \<and> traced env (calls s) r new"
proof (induction qs arbitrary: s r s')
  case Nil
  then have "calls s' = [] @ calls s \<and> traced env (calls s) r []"
    by (auto simp: traced_def)
  then show ?case by blast
next
  case (Cons q qs)
  obtain r1 s1 where g: "getFlights env q s = (r1, s1)" by (cases "getFlights env q s")
  from getFlights_traced [OF g] obtain n1
    where n1: "calls s1 = n1 @ calls s" "traced env (calls s) r1 n1" by blast
  show ?case
  proof (cases r1)
    case (Inl e)
    with g Cons.prems have "r = Inl e" "s' = s1" by auto
    with n1 Inl have "calls s' = n1 @ calls s \<and> traced env (calls s) r n1"
      by (simp add: traced_def)
    then show ?thesis by blast
  next
    case (Inr found)
    obtain r2 s2 where e: "searchEach env qs s1 = (r2, s2)" by (cases "searchEach env qs s1")
    from Cons.IH [OF e] obtain n2
      where n2: "calls s2 = n2 @ calls s1" "traced env (calls s1) r2 n2" by blast
    from g Inr e Cons.prems have s': "s' = s2"
      and r: "r = (case r2 of Inl e \<Rightarrow> Inl e | Inr rest \<Rightarrow> Inr (found # rest))"
      by (auto split: sum.splits)
    from n2(2) r have "traced env (n1 @ calls s) r n2"
      using n1(1) by (auto simp: traced_def split: sum.splits)
    moreover from n1(2) Inr have "allUsable env (calls s) n1" by (simp add: traced_Inr)
    ultimately have "traced env (calls s) r (n2 @ n1)" by (rule traced_seq [rotated])
    with n1(1) n2(1) s' show ?thesis by auto
  qed
qed

lemma getFlightResults_traced:
  assumes "getFlightResults env t ty s = (r, s')"
  shows "\<exists>new. calls s' = new @ calls s \<and> traced env (calls s) r new"
proof -
  obtain r0 s0 where e: "searchEach env (expandLeg t ty) s = (r0, s0)"
    by (cases "searchEach env (expandLeg t ty) s")
  from searchEach_traced [OF e] obtain new
    where n: "calls s0 = new @ calls s" "traced env (calls s) r0 new" by blast
  from assms e have "s' = s0" "r = (case r0 of Inl e \<Rightarrow> Inl e | Inr rss \<Rightarrow> Inr (concat rss))"
    by (auto simp: getFlightResults_searchEach collected_def split: sum.splits)
  with n have "calls s' = new @ calls s \<and> traced env (calls s) r new"
    by (auto simp: traced_def split: sum.splits)
  then show ?thesis by blast
qed

lemma searchTrip_traced:
  assumes "searchTrip env t s = (r, s')"
  shows "\<exists>new. calls s' = new @ calls s \<and> traced env (calls s) r new"
proof -
  obtain r1 s1 where d: "getFlightResults env t Depart s = (r1, s1)"
    by (cases "getFlightResults env t Depart s")
  from getFlightResults_traced [OF d] obtain n1
    where n1: "calls s1 = n1 @ calls s" "traced env (calls s) r1 n1" by blast
  show ?thesis
  proof (cases r1)
    case (Inl e)
    with d assms have "r = Inl e" "s' = s1" by (auto simp: searchTrip_def andThen_def)
    with n1 Inl have "calls s' = n1 @ calls s \<and> traced env (calls s) r n1"
      by (simp add: traced_def)
    then show ?thesis by blast
  next
    case (Inr dep)
    obtain r2 s2 where e: "getFlightResults env t Return s1 = (r2, s2)"
      by (cases "getFlightResults env t Return s1")
    from getFlightResults_traced [OF e] obtain n2
      where n2: "calls s2 = n2 @ calls s1" "traced env (calls s1) r2 n2" by blast
    from d Inr e assms have s': "s' = s2"
      and r: "r = (case r2 of Inl e \<Rightarrow> Inl e | Inr ret \<Rightarrow> Inr (tripResult dep ret))"
      by (auto simp: searchTrip_def andThen_def succeed_def split: sum.splits)
    from n2(2) r have "traced env (n1 @ calls s) r n2"
      using n1(1) by (auto simp: traced_def split: sum.splits)
    moreover from n1(2) Inr have "allUsable env (calls s) n1" by (simp add: traced_Inr)
    ultimately have "traced env (calls s) r (n2 @ n1)" by (rule traced_seq [rotated])
    with n1(1) n2(1) s' show ?thesis by auto
  qed
qed

subsection \<open>The run\<close>

lemma searchEach_frame:
  "searchEach env qs s = (r, s') \<Longrightarrow> files s' = files s \<and> cityInfo s \<subseteq>\<^sub>m cityInfo s'"
proof (induction qs arbitrary: s r s')
  case Nil
  then show ?case by auto
next
  case (Cons q qs)
  obtain r1 s1 where g: "getFlights env q s = (r1, s1)" by (cases "getFlights env q s")
  note f1 = getFlights_frame [OF g]
  show ?case
  proof (cases r1)
    case (Inl e)
    with g Cons.prems have "s' = s1" by auto
    with f1 show ?thesis by simp
  next
    case (Inr found)
    obtain r2 s2 where e: "searchEach env qs s1 = (r2, s2)" by (cases "searchEach env qs s1")
    from g Inr e Cons.prems have "s' = s2" by (auto split: sum.splits)
    with Cons.IH [OF e] f1 show ?thesis by (auto intro: map_le_trans)
  qed
qed

lemma getFlightResults_frame:
  assumes "getFlightResults env t ty s = (r, s')"
  shows "files s' = files s \<and> cityInfo s \<subseteq>\<^sub>m cityInfo s'"
proof -
  obtain r0 s0 where e: "searchEach env (expandLeg t ty) s = (r0, s0)"
    by (cases "searchEach env (expandLeg t ty) s")
  from assms e have "s' = s0"
    by (auto simp: getFlightResults_searchEach collected_def split: sum.splits)
  with searchEach_frame [OF e] show ?thesis by simp
qed

lemma searchTrip_frame:
  assumes "searchTrip env t s = (r, s')"
  shows "files s' = files s \<and> cityInfo s \<subseteq>\<^sub>m cityInfo s'"
proof -
  obtain r1 s1 where d: "getFlightResults env t Depart s = (r1, s1)"
    by (cases "getFlightResults env t Depart s")
  note f1 = getFlightResults_frame [OF d]
  show ?thesis
  proof (cases r1)
    case (Inl e)
    with d assms have "s' = s1" by (auto simp: searchTrip_def andThen_def)
    with f1 show ?thesis by simp
  next
    case (Inr dep)
    obtain r2 s2 where e: "getFlightResults env t Return s1 = (r2, s2)"
      by (cases "getFlightResults env t Return s1")
    from d Inr e assms have "s' = s2"
      by (auto simp: searchTrip_def andThen_def succeed_def split: sum.splits)
    with getFlightResults_frame [OF e] f1 show ?thesis by (auto intro: map_le_trans)
  qed
qed

lemma useFileCache_hit:
  "readCache nm s = Some v \<Longrightarrow> useFileCache nm fetchData s = (Inr v, s)"
  by (simp add: useFileCache_def)

lemma useFileCache_miss:
  "readCache nm s = None \<Longrightarrow> useFileCache nm fetchData s = recompute nm fetchData s"
  by (simp add: useFileCache_def)

lemma recompute_cases:
  assumes "recompute nm fetchData s = (r, s')"
  shows "(\<exists>e. r = Inl e \<and> fetchData s = (Inl e, s'))
       \<or> (\<exists>v. r = Inl TypeError \<and> fetchData s = (Inr v, s') \<and> JSON_stringify v = None)
       \<or> (\<exists>v s1 text. r = Inr v \<and> fetchData s = (Inr v, s1) \<and> JSON_stringify v = Some text
             \<and> s' = s1\<lparr>files := (files s1)(cachePath nm \<mapsto> text)\<rparr>)"
  using assms
  by (auto simp: recompute_def andThen_def split: prod.splits sum.splits option.splits)

lemma main_cases:
  assumes "main env s = (r, s')"
  shows "(\<exists>v. readCache (str ''results'') s = Some v \<and> r = Inr v \<and> s' = s)
       \<or> (readCache (str ''results'') s = None
           \<and> recompute (str ''results'') (searchTrip env trip) s = (r, s'))"
  using assms by (cases "readCache (str ''results'') s") (auto simp: main_def useFileCache_def)

lemma main_frame:
  assumes "main env s = (r, s')"
  shows "cityInfo s \<subseteq>\<^sub>m cityInfo s'"
  using main_cases [OF assms]
proof (elim disjE exE conjE)
  fix v assume "s' = s"
  then show ?thesis by simp
next
  assume "recompute (str ''results'') (searchTrip env trip) s = (r, s')"
  from recompute_cases [OF this] show ?thesis
    by (auto dest: searchTrip_frame)
qed

text \<open>
  C10. The city mapping only grows. A resolution leaves it as it is or adds the resolved
  name, which was not mapped before; a search, a leg and the whole run keep every entry
  that was there, with the same descriptor.
\<close>

theorem cityInfo_monotone:
  "(getCityInfo env nm s = (r1, s1) \<longrightarrow>
      cityInfo s1 = cityInfo s
      \<or> (\<exists>info. cityInfo s nm = None \<and> cityInfo s1 = (cityInfo s)(nm \<mapsto> info)))
   \<and> (getFlights env opt s = (r2, s2) \<longrightarrow>
        (\<forall>k info. cityInfo s k = Some info \<longrightarrow> cityInfo s2 k = Some info))
   \<and> (getFlightResults env t ty s = (r3, s3) \<longrightarrow>
        (\<forall>k info. cityInfo s k = Some info \<longrightarrow> cityInfo s3 k = Some info))
   \<and> (main env s = (r4, s4) \<longrightarrow>
        (\<forall>k info. cityInfo s k = Some info \<longrightarrow> cityInfo s4 k = Some info))"
proof (intro conjI impI)
  assume "getCityInfo env nm s = (r1, s1)"
  from getCityInfo_frame [OF this]
  show "cityInfo s1 = cityInfo s
        \<or> (\<exists>info. cityInfo s nm = None \<and> cityInfo s1 = (cityInfo s)(nm \<mapsto> info))"
    by simp
next
  assume "getFlights env opt s = (r2, s2)"
  from getFlights_frame [OF this]
  show "\<forall>k info. cityInfo s k = Some info \<longrightarrow> cityInfo s2 k = Some info"
    by (auto simp: map_le_def dom_def)
next
  assume "getFlightResults env t ty s = (r3, s3)"
  from getFlightResults_frame [OF this]
  show "\<forall>k info. cityInfo s k = Some info \<longrightarrow> cityInfo s3 k = Some info"
    by (auto simp: map_le_def dom_def)
next
  assume "main env s = (r4, s4)"
  from main_frame [OF this]
  show "\<forall>k info. cityInfo s k = Some info \<longrightarrow> cityInfo s4 k = Some info"
    by (auto simp: map_le_def dom_def)
qed


theorem cityInfo_monotone_witness:
  "(cityInfo knowsBoth = cityInfo knowsBudapest
      \<or> (\<exists>info. cityInfo knowsBudapest (str ''Corfu'') = None
            \<and> cityInfo knowsBoth = (cityInfo knowsBudapest)(str ''Corfu'' \<mapsto> info)))
   \<and> cityInfo (snd (getFlights (scenario noItems) budapestCorfu knowsBudapest)) (str ''Budapest'')
       = Some (cityOf ''BUD'' ''1'' ''Budapest'')
   \<and> cityInfo (snd (getFlightResults (scenario noItems) trip Depart knowsBudapest)) (str ''Budapest'')
       = Some (cityOf ''BUD'' ''1'' ''Budapest'')
   \<and> cityInfo (snd (main (scenario noItems) knowsBudapest)) (str ''Budapest'')
       = Some (cityOf ''BUD'' ''1'' ''Budapest'')"
proof -
  have b: "cityInfo knowsBudapest (str ''Budapest'') = Some (cityOf ''BUD'' ''1'' ''Budapest'')"
    by (simp add: knowsBudapest_def)
  note m = cityInfo_monotone [of "scenario noItems" "str ''Corfu''" knowsBudapest
      "Inr (cityOf ''CFU'' ''2'' ''Corfu'')" knowsBoth
      budapestCorfu "fst (getFlights (scenario noItems) budapestCorfu knowsBudapest)"
      "snd (getFlights (scenario noItems) budapestCorfu knowsBudapest)"
      trip Depart "fst (getFlightResults (scenario noItems) trip Depart knowsBudapest)"
      "snd (getFlightResults (scenario noItems) trip Depart knowsBudapest)"
      "fst (main (scenario noItems) knowsBudapest)" "snd (main (scenario noItems) knowsBudapest)"]
  from m scenario_Corfu [of noItems] b show ?thesis by simp
qed

lemma split_log:
  "xs @ ys = new @ base \<Longrightarrow> length base \<le> length ys \<Longrightarrow> \<exists>mid. ys = mid @ base \<and> new = xs @ mid"
  by (auto simp: append_eq_append_conv2)

lemma allUsable_inner:
  "allUsable env base (later @ req # mid) \<Longrightarrow> \<not> unusable env (mid @ base) req"
  by (simp add: allUsable_append)

lemma main_traced:
  assumes "main env s = (r, s')"
  shows "\<exists>new. calls s' = new @ calls s \<and> traced env (calls s) r new"
  using main_cases [OF assms]
proof (elim disjE exE conjE)
  fix v assume "r = Inr v" "s' = s"
  then have "calls s' = [] @ calls s \<and> traced env (calls s) r []" by (simp add: traced_def)
  then show ?thesis by blast
next
  assume "recompute (str ''results'') (searchTrip env trip) s = (r, s')"
  from recompute_cases [OF this] show ?thesis
  proof (elim disjE exE conjE)
    fix e assume "r = Inl e" "searchTrip env trip s = (Inl e, s')"
    with searchTrip_traced show ?thesis by blast
  next
    fix v assume r: "r = Inl TypeError" and t: "searchTrip env trip s = (Inr v, s')"
    from searchTrip_traced [OF t] obtain new
      where "calls s' = new @ calls s" "traced env (calls s) (Inr v :: error + jsval) new" by blast
    with r have "calls s' = new @ calls s \<and> traced env (calls s) r new" by (simp add: traced_def)
    then show ?thesis by blast
  next
    fix v s1 blob
    assume r: "r = Inr v" and t: "searchTrip env trip s = (Inr v, s1)"
      and s': "s' = s1\<lparr>files := (files s1)(cachePath (str ''results'') \<mapsto> blob)\<rparr>"
    from searchTrip_traced [OF t] obtain new
      where "calls s1 = new @ calls s" "traced env (calls s) (Inr v :: error + jsval) new" by blast
    with r s' have "calls s' = new @ calls s \<and> traced env (calls s) r new" by simp
    then show ?thesis by blast
  qed
qed

lemma main_error_files:
  assumes "main env s = (Inl e, s')"
  shows "files s' = files s"
  using main_cases [OF assms]
proof (elim disjE exE conjE)
  fix v assume "Inl e = Inr v"
  then show ?thesis by simp
next
  assume "recompute (str ''results'') (searchTrip env trip) s = (Inl e, s')"
  from recompute_cases [OF this] show ?thesis by (auto dest: searchTrip_frame)
qed

text \<open>
  C3. Suppose that during a run a city lookup is sent that the provider answers without
  a usable suggestion. Then the run fails with the unresolved-city error for that name,
  the lookup is the last request of the run, so that no search or lookup follows it, and
  the files are as they were before the run: nothing is written to the cache.
\<close>

theorem unresolved_city_aborts:
  assumes "main env s = (r, s')"
    and "calls s' = later @ AutoComplete nm # before"
    and "length (calls s) \<le> length before"
    and "autoComplete env before nm = Some res"
    and "firstSuggestion res = None"
  shows "r = Inl (UnresolvedCityError nm res) \<and> later = [] \<and> files s' = files s"
proof -
  from main_traced [OF assms(1)] obtain new
    where n: "calls s' = new @ calls s" "traced env (calls s) r new" by blast
  from n(1) assms(2) have "(later @ [AutoComplete nm]) @ before = new @ calls s" by simp
  from split_log [OF this assms(3)] obtain mid
    where mid: "before = mid @ calls s" "new = later @ AutoComplete nm # mid" by auto
  have u: "unusable env (mid @ calls s) (AutoComplete nm)"
    using assms(4,5) mid(1) by (simp add: unusable_def)
  have nu: "\<not> allUsable env (calls s) new"
    using u mid(2) allUsable_inner by blast
  with n(2) obtain nm' res' older
    where r: "r = Inl (UnresolvedCityError nm' res')"
      and new: "new = AutoComplete nm' # older"
      and older: "allUsable env (calls s) older"
      and res': "autoComplete env (older @ calls s) nm' = Some res'"
    by (auto simp: traced_def split: sum.splits error.splits list.splits)
  have l: "later = []"
  proof (cases later)
    case Nil
    then show ?thesis .
  next
    case (Cons a as)
    with new mid(2) have "older = as @ AutoComplete nm # mid" by simp
    with older u allUsable_inner show ?thesis by blast
  qed
  with new mid(2) have "nm' = nm" "older = mid" by simp_all
  with res' assms(4) mid(1) have "res' = res" by simp
  with r \<open>nm' = nm\<close> have "r = Inl (UnresolvedCityError nm res)" by simp
  moreover from this assms(1) have "files s' = files s" using main_error_files by blast
  ultimately show ?thesis using l by simp
qed

subsection \<open>The cache, the credential and the unresolved city\<close>

lemma scenario_run:
  "main (scenario (oneBucket [])) fresh =
     (Inl (UnresolvedCityError (str ''Berlin'') \<lparr> inputSuggest = Some [] \<rparr>), berlinUnknown)"
  by (simp add: main_def useFileCache_def readCache_def recompute_def searchTrip_def
        getFlightResults_def tripLeg_def trip_def andThen_def getFlights_def getCityInfo_def
        fetchSkyscanner_def scenario_def fresh_def firstSuggestion_def suggesting_def
        readFlights_def firstBucket_def oneBucket_def str_def berlinUnknown_def budapestCorfu_def)

theorem unresolved_city_aborts_witness:
  "main (scenario (oneBucket [])) fresh =
     (Inl (UnresolvedCityError (str ''Berlin'') \<lparr> inputSuggest = Some [] \<rparr>), berlinUnknown)
   \<and> hd (calls berlinUnknown) = AutoComplete (str ''Berlin'')
   \<and> files berlinUnknown = files fresh"
proof -
  have c: "calls berlinUnknown = [] @ AutoComplete (str ''Berlin'') # tl (calls berlinUnknown)"
    by (simp add: berlinUnknown_def)
  have l: "length (calls fresh) \<le> length (tl (calls berlinUnknown))"
    by (simp add: fresh_def)
  have a: "autoComplete (scenario (oneBucket [])) (tl (calls berlinUnknown)) (str ''Berlin'')
             = Some \<lparr> inputSuggest = Some [] \<rparr>"
    by (simp add: scenario_def str_def)
  have f: "firstSuggestion \<lparr> inputSuggest = Some [] \<rparr> = None"
    by (simp add: firstSuggestion_def)
  from unresolved_city_aborts [OF scenario_run c l a f] scenario_run c
  show ?thesis by (simp add: berlinUnknown_def)
qed

lemma parse_emptyTrip:
  "JSON_parse emptyTrip = Some (JObj [(str ''depart'', JArr []), (str ''return'', JArr [])])"
  unfolding emptyTrip_def by code_simp

lemma trim_emptyTrip: "trim emptyTrip \<noteq> []"
  unfolding emptyTrip_def by code_simp

lemma files_withCache: "files (withCache content) (cachePath (str ''results'')) = Some content"
  by (simp add: withCache_def)

lemma readCache_emptyTrip:
  "readCache (str ''results'') (withCache emptyTrip)
     = Some (JObj [(str ''depart'', JArr []), (str ''return'', JArr [])])"
  by (simp add: readCache_def files_withCache trim_emptyTrip parse_emptyTrip)

text \<open>
  C1 as stated does not hold for content that is not JSON: the cache file below holds a
  single brace, which is not blank, and the run searches all the same.
\<close>

theorem useFileCache_hit_counterexample:
  "files (withCache (str ''{'')) (cachePath (str ''results'')) = Some (str ''{'')
   \<and> trim (str ''{'') \<noteq> []
   \<and> main (scenario (oneBucket [])) (withCache (str ''{'')) =
       (Inl (UnresolvedCityError (str ''Berlin'') \<lparr> inputSuggest = Some [] \<rparr>),
        berlinUnknown\<lparr>files := files (withCache (str ''{''))\<rparr>)"
proof -
  have p: "JSON_parse (str ''{'') = None" by code_simp
  have t: "trim (str ''{'') \<noteq> []" by code_simp
  have r: "readCache (str ''results'') (withCache (str ''{'')) = None"
    by (simp add: readCache_def files_withCache p)
  have m: "main (scenario (oneBucket [])) (withCache (str ''{'')) =
       recompute (str ''results'') (searchTrip (scenario (oneBucket [])) trip) (withCache (str ''{''))"
    by (simp only: main_def useFileCache_miss [OF r])
  have "recompute (str ''results'') (searchTrip (scenario (oneBucket [])) trip) (withCache (str ''{'')) =
       (Inl (UnresolvedCityError (str ''Berlin'') \<lparr> inputSuggest = Some [] \<rparr>),
        berlinUnknown\<lparr>files := files (withCache (str ''{''))\<rparr>)"
    by (simp add: recompute_def searchTrip_def
        getFlightResults_def tripLeg_def trip_def andThen_def getFlights_def getCityInfo_def
        fetchSkyscanner_def scenario_def fresh_def firstSuggestion_def suggesting_def
        readFlights_def firstBucket_def oneBucket_def str_def berlinUnknown_def budapestCorfu_def
        withCache_def)
  with m t files_withCache show ?thesis by simp
qed

text \<open>
  C1, amended. If the cache file exists, its content is not blank and is JSON text, the
  cache returns the value of that text and leaves the state as it is, whatever the
  compute function is: the function is not invoked, and no request is sent.
\<close>

theorem useFileCache_hit_returns:
  assumes "files s (cachePath nm) = Some content"
    and "trim content \<noteq> []"
    and "JSON_parse content = Some v"
  shows "useFileCache nm fetchData s = (Inr v, s)"
  using assms by (simp add: useFileCache_def readCache_def)

theorem useFileCache_hit_returns_witness:
  "useFileCache (str ''results'') (searchTrip (scenario noItems) trip) (withCache emptyTrip)
     = (Inr (JObj [(str ''depart'', JArr []), (str ''return'', JArr [])]), withCache emptyTrip)"
  using useFileCache_hit_returns [OF files_withCache trim_emptyTrip parse_emptyTrip] by simp

text \<open>
  C8. A missing file, blank content and content that is not JSON all lead to the same
  path: the compute function runs, and the outcome is its outcome, with its result
  written to the file. No error of reading or parsing reaches the caller.
\<close>

theorem useFileCache_read_failure:
  assumes "files s (cachePath nm) = None
           \<or> (\<exists>content. files s (cachePath nm) = Some content
                 \<and> (trim content = [] \<or> JSON_parse content = None))"
  shows "useFileCache nm fetchData s =
           (case fetchData s of
              (Inl e, s') \<Rightarrow> (Inl e, s')
            | (Inr v, s') \<Rightarrow>
                (case JSON_stringify v of
                   None \<Rightarrow> (Inl TypeError, s')
                 | Some blob \<Rightarrow> (Inr v, s'\<lparr>files := (files s')(cachePath nm \<mapsto> blob)\<rparr>)))"
proof -
  from assms have "readCache nm s = None" by (auto simp: readCache_def)
  then show ?thesis
    by (simp add: useFileCache_def recompute_def andThen_def split: prod.splits sum.splits)
qed

theorem useFileCache_read_failure_witness:
  "useFileCache (str ''results'') (succeed (JArr [])) fresh
     = (Inr (JArr []), withCache (str ''[]''))
   \<and> useFileCache (str ''results'') (succeed (JArr [])) (withCache (str '' ''))
     = (Inr (JArr []), withCache (str ''[]''))
   \<and> useFileCache (str ''results'') (succeed (JArr [])) (withCache (str ''{''))
     = (Inr (JArr []), withCache (str ''[]''))"
proof -
  have s: "JSON_stringify (JArr []) = Some (str ''[]'')" by code_simp
  have 1: "files fresh (cachePath (str ''results'')) = None
           \<or> (\<exists>content. files fresh (cachePath (str ''results'')) = Some content
                 \<and> (trim content = [] \<or> JSON_parse content = None))"
    by (simp add: fresh_def)
  have b: "trim (str '' '') = []" by code_simp
  have 2: "files (withCache (str '' '')) (cachePath (str ''results'')) = None
           \<or> (\<exists>content. files (withCache (str '' '')) (cachePath (str ''results'')) = Some content
                 \<and> (trim content = [] \<or> JSON_parse content = None))"
    using b by (simp add: files_withCache)
  have p: "JSON_parse (str ''{'') = None" by code_simp
  have 3: "files (withCache (str ''{'')) (cachePath (str ''results'')) = None
           \<or> (\<exists>content. files (withCache (str ''{'')) (cachePath (str ''results'')) = Some content
                 \<and> (trim content = [] \<or> JSON_parse content = None))"
    using p by (simp add: files_withCache)
  from useFileCache_read_failure [OF 1, of "succeed (JArr [])"]
    useFileCache_read_failure [OF 2, of "succeed (JArr [])"]
    useFileCache_read_failure [OF 3, of "succeed (JArr [])"]
  show ?thesis by (simp add: succeed_def s withCache_def fresh_def)
qed

text \<open>
  C4 as stated does not hold: the key is read only when a request is about to be sent.
  A run that finds its result in the cache never looks at the key and succeeds without
  it.
\<close>

theorem missing_key_counterexample:
  "RAPID_API_KEY keyless = None
   \<and> main keyless (withCache emptyTrip) =
       (Inr (JObj [(str ''depart'', JArr []), (str ''return'', JArr [])]), withCache emptyTrip)"
  by (simp add: keyless_def main_def useFileCache_def readCache_emptyTrip)

text \<open>
  C4, amended. Without a key no request is sent: every call of the provider client fails
  with the missing-credential error and leaves the state as it is. So a run that does not
  find its result in the cache fails with that error at its first city lookup, before any
  request, and nothing is written.
\<close>

theorem missing_key_aborts_search:
  assumes "\<not> hasKey env"
    and "readCache (str ''results'') s = None"
    and "cityInfo s (str ''Budapest'') = None"
  shows "fetchSkyscanner env req respond t = (Inl MissingCredentialError, t)
         \<and> main env s = (Inl MissingCredentialError, s)"
proof -
  have "getCityInfo env (str ''Budapest'') s = (Inl MissingCredentialError, s)"
    using assms(1,3) by (simp add: getCityInfo_def andThen_def fetchSkyscanner_noKey)
  then have "main env s = (Inl MissingCredentialError, s)"
    using assms(2)
    by (simp add: main_def useFileCache_def recompute_def searchTrip_def getFlightResults_def
          tripLeg_def trip_def andThen_def getFlights_def)
  with fetchSkyscanner_noKey [OF assms(1)] show ?thesis by simp
qed

theorem missing_key_aborts_search_witness:
  "fetchSkyscanner keyless (AutoComplete (str ''Budapest''))
     (\<lambda>h. autoComplete keyless h (str ''Budapest'')) fresh = (Inl MissingCredentialError, fresh)
   \<and> main keyless fresh = (Inl MissingCredentialError, fresh)"
proof -
  have k: "\<not> hasKey keyless" by (simp add: hasKey_def keyless_def)
  have r: "readCache (str ''results'') fresh = None" by (simp add: readCache_def fresh_def)
  have c: "cityInfo fresh (str ''Budapest'') = None" by (simp add: fresh_def)
  show ?thesis by (rule missing_key_aborts_search [OF k r c])
qed

subsection \<open>Writing the cache and reading it back\<close>









end
